theory Spec2Isabelle
  imports Complex_Main "HOL-Library.Sublist" "HOL-Library.Char_ord" "HOL-Library.List_Lexorder"
    "HOL-Library.AList" "HOL-Library.Multiset"
begin

section \<open>benchtoolz: unit scaling, natural sorting, adaptive timing, tables\<close>

text \<open>
  The development follows \<^verbatim>\<open>benchtoolz/printutils.py\<close> and
  \<^verbatim>\<open>benchtoolz/benchutils.py\<close>. Python floats (times in seconds) are taken as
  exact reals: comparisons and the four operations are the mathematical ones, and the
  rounding of IEEE doubles is outside the model. Python integers are \<open>nat\<close> or
  \<open>int\<close>, strings are \<open>string\<close>.
\<close>

subsection \<open>\<^verbatim>\<open>best_units\<close>\<close>

text \<open>
  \<^verbatim>\<open>def best_units(num)\<close>: a ladder of ten tests, from \<^verbatim>\<open>num < 1e-12\<close> (femto)
  to the fall-through \<^verbatim>\<open>return 1e-12, 'T'\<close> (tera).
\<close>

definition best_units :: "real \<Rightarrow> real \<times> string" where
  "best_units num =
    (if num < 1 / 10 ^ 12 then (10 ^ 15, ''f'')
     else if num < 1 / 10 ^ 9 then (10 ^ 12, ''p'')
     else if num < 1 / 10 ^ 6 then (10 ^ 9, ''n'')
     else if num < 1 / 10 ^ 3 then (10 ^ 6, ''u'')
     else if num < 1 then (10 ^ 3, ''m'')
     else if num < 10 ^ 3 then (1, '''')
     else if num < 10 ^ 6 then (1 / 10 ^ 3, ''k'')
     else if num < 10 ^ 9 then (1 / 10 ^ 6, ''M'')
     else if num < 10 ^ 12 then (1 / 10 ^ 9, ''G'')
     else (1 / 10 ^ 12, ''T''))"

subsection \<open>\<^verbatim>\<open>numericstringkey\<close> and \<^verbatim>\<open>nsorted\<close>\<close>

text \<open>
  \<^verbatim>\<open>re.split(r'(\d+)', sval)\<close> cuts a string into text, digit run, text, ..., text:
  an odd number of items, the text items possibly empty. Characters are bytes here and
  \<^verbatim>\<open>\d\<close> is \<open>0\<close> to \<open>9\<close>.
\<close>

definition isdigit :: "char \<Rightarrow> bool" where
  "isdigit c = (CHR ''0'' \<le> c \<and> c \<le> CHR ''9'')"

lemma dropWhile_digits_shorter:
  assumes "dropWhile (\<lambda>c. \<not> isdigit c) s \<noteq> []"
  shows "length (dropWhile isdigit (dropWhile (\<lambda>c. \<not> isdigit c) s)) < length s"
proof -
  obtain d r where dr: "dropWhile (\<lambda>c. \<not> isdigit c) s = d # r"
    using assms by (cases "dropWhile (\<lambda>c. \<not> isdigit c) s") auto
  have d: "isdigit d"
    using hd_dropWhile [OF assms] dr by simp
  have "length (dropWhile isdigit (d # r)) \<le> length r"
    using d by (simp add: length_dropWhile_le)
  moreover have "length (d # r) \<le> length s"
    using dr length_dropWhile_le [of "\<lambda>c. \<not> isdigit c" s] by simp
  ultimately show ?thesis using dr by simp
qed

function re_split_digits :: "string \<Rightarrow> string list" where
  "re_split_digits s =
    (let text = takeWhile (\<lambda>c. \<not> isdigit c) s;
         rest = dropWhile (\<lambda>c. \<not> isdigit c) s
     in if rest = [] then [text]
        else text # takeWhile isdigit rest # re_split_digits (dropWhile isdigit rest))"
  by pat_completeness auto
termination
  by (relation "measure length") (auto simp: dropWhile_digits_shorter)

declare re_split_digits.simps [simp del]

text \<open>
  \<^verbatim>\<open>int(item)\<close> on an item of the split: the decimal value of a digit run,
  \<^verbatim>\<open>ValueError\<close> (\<open>None\<close>) on a text item. The other spellings that
  \<^verbatim>\<open>int\<close> accepts (sign, blanks, underscores) all need a digit, and a text item
  has none.
\<close>

definition digitval :: "char \<Rightarrow> nat" where
  "digitval c = of_char c - of_char CHR ''0''"

definition py_int :: "string \<Rightarrow> nat option" where
  "py_int item =
    (if item \<noteq> [] \<and> list_all isdigit item
     then Some (foldl (\<lambda>acc c. 10 * acc + digitval c) 0 item)
     else None)"

text \<open>
  The key is a tuple of integers and strings. Tuples compare lexicographically, integers
  by value, strings by code point. An integer against a string is ordered as Python 2
  does (the number first); Python 3 raises \<^verbatim>\<open>TypeError\<close> there, and lemma
  \<open>numericstringkey_kinds\<close> below shows that two keys of strings never meet that case:
  the item at an even index is a string, at an odd index an integer.
\<close>

datatype keyitem = KInt nat | KStr string

definition numericstringkey :: "string \<Rightarrow> keyitem list" where
  "numericstringkey sval =
    map (\<lambda>item. case py_int item of Some n \<Rightarrow> KInt n | None \<Rightarrow> KStr item)
      (re_split_digits sval)"

instantiation keyitem :: linorder
begin

definition less_eq_keyitem :: "keyitem \<Rightarrow> keyitem \<Rightarrow> bool" where
  "less_eq_keyitem x y =
    (case x of
       KInt a \<Rightarrow> (case y of KInt b \<Rightarrow> a \<le> b | KStr t \<Rightarrow> True)
     | KStr s \<Rightarrow> (case y of KInt b \<Rightarrow> False | KStr t \<Rightarrow> s \<le> t))"

definition less_keyitem :: "keyitem \<Rightarrow> keyitem \<Rightarrow> bool" where
  "less_keyitem x y = (x \<le> y \<and> \<not> y \<le> (x :: keyitem))"

instance
  by standard (auto simp: less_eq_keyitem_def less_keyitem_def split: keyitem.splits)

end

text \<open>
  \<^verbatim>\<open>nsorted = functools.partial(sorted, key=numericstringkey)\<close>: Python's
  \<^verbatim>\<open>sorted\<close> is a stable sort by the key.
\<close>

definition nsorted :: "string list \<Rightarrow> string list" where
  "nsorted xs = sort_key numericstringkey xs"


subsection \<open>Errors, the timer, \<^verbatim>\<open>bettertimeit\<close>\<close>

datatype error =
  ValueError | IndexError | KeyError | ZeroDivisionError | UnboundLocalError | TypeError

text \<open>
  \<^verbatim>\<open>timeit.Timer(statements, setup, timer=timer).timeit(number)\<close> runs the setup, then
  the statements \<open>number\<close> times, and returns the elapsed seconds. What it returns depends
  on the world outside (the clock, the machine): the world is a state \<open>'w\<close> that the
  timing reads and changes. The state of a run also keeps the list of timings made so
  far, each with its statements, its setup and its loop count.
\<close>

type_synonym 'w timeit = "string \<Rightarrow> string \<Rightarrow> nat \<Rightarrow> 'w \<Rightarrow> real \<times> 'w"

record 'w runstate =
  world :: 'w
  timings :: "(string \<times> string \<times> nat) list"

definition timer_timeit ::
  "'w timeit \<Rightarrow> string \<Rightarrow> string \<Rightarrow> nat \<Rightarrow> 'w runstate \<Rightarrow> real \<times> 'w runstate" where
  "timer_timeit timer statements setup number st =
    (let (elapsed, w) = timer statements setup number (world st)
     in (elapsed, st\<lparr>world := w, timings := timings st @ [(statements, setup, number)]\<rparr>))"

text \<open>
  \<^verbatim>\<open>Timer.repeat(repeat, number)\<close> of the standard library:
  \<^verbatim>\<open>for i in range(repeat): r.append(self.timeit(number))\<close>.
\<close>

fun timer_repeat ::
  "'w timeit \<Rightarrow> string \<Rightarrow> string \<Rightarrow> nat \<Rightarrow> nat \<Rightarrow> 'w runstate \<Rightarrow> real list \<times> 'w runstate" where
  "timer_repeat timer statements setup 0 number st = ([], st)"
| "timer_repeat timer statements setup (Suc k) number st =
    (let (elapsed, st1) = timer_timeit timer statements setup number st;
         (r, st2) = timer_repeat timer statements setup k number st1
     in (elapsed # r, st2))"

text \<open>The \<^verbatim>\<open>if\<close>/\<^verbatim>\<open>elif\<close> chain of the probing loop after the \<^verbatim>\<open>break\<close> test.\<close>

definition scale_loops :: "real \<Rightarrow> real \<Rightarrow> nat \<Rightarrow> nat" where
  "scale_loops mintime runtime loops =
    (if runtime > mintime / 2 then loops * 2
     else if runtime > mintime / 4 then loops * 4
     else if runtime > mintime / 8 then loops * 8
     else if runtime > mintime / 16 then loops * 2
     else if runtime > mintime / 32 then loops * 8
     else if runtime > mintime / 64 then loops * 8
     else loops * 2)"

text \<open>
  \<^verbatim>\<open>for i in range(32): runtime = timer.timeit(loops); if runtime > mintime: break; ...\<close>
  with the rounds that remain as the recursion argument. The variable \<^verbatim>\<open>runtime\<close> is
  unbound (\<open>None\<close>) before the first round.
\<close>

fun probe ::
  "'w timeit \<Rightarrow> string \<Rightarrow> string \<Rightarrow> real \<Rightarrow> nat \<Rightarrow> nat \<Rightarrow> real option \<Rightarrow> 'w runstate
    \<Rightarrow> nat \<times> real option \<times> 'w runstate" where
  "probe timer statements setup mintime 0 loops runtime st = (loops, runtime, st)"
| "probe timer statements setup mintime (Suc rounds) loops runtime st =
    (let (elapsed, st1) = timer_timeit timer statements setup loops st
     in if elapsed > mintime then (loops, Some elapsed, st1)
        else probe timer statements setup mintime rounds
               (scale_loops mintime elapsed loops) (Some elapsed) st1)"

text \<open>
  \<^verbatim>\<open>bettertimeit\<close>: probe from \<^verbatim>\<open>loops = 1\<close> for at most 32 rounds, then
  \<^verbatim>\<open>results = timer.repeat(numrepeat - 1, loops)\<close>,
  \<^verbatim>\<open>results.append(runtime)\<close>, \<^verbatim>\<open>results = [x / loops for x in results]\<close>.
  \<^verbatim>\<open>range\<close> of a number below 1 is empty, hence \<open>nat (numrepeat - 1)\<close>.
\<close>

definition bettertimeit ::
  "'w timeit \<Rightarrow> string \<Rightarrow> string \<Rightarrow> real \<Rightarrow> int \<Rightarrow> 'w runstate
    \<Rightarrow> error + ((real list \<times> nat) \<times> 'w runstate)" where
  "bettertimeit timer statements setup mintime numrepeat st =
    (let (loops, last_probe, st1) = probe timer statements setup mintime 32 1 None st
     in case last_probe of
          None \<Rightarrow> Inl UnboundLocalError
        | Some runtime \<Rightarrow>
            (let (results, st2) =
                   timer_repeat timer statements setup (nat (numrepeat - 1)) loops st1;
                 results = results @ [runtime]
             in if loops = 0 then Inl ZeroDivisionError
                else Inr ((map (\<lambda>x. x / real loops) results, loops), st2)))"

text \<open>
  A deterministic timer for concrete runs: the elapsed time is the loop count times a
  fixed cost per iteration, and the world has no state.
\<close>

definition scaling_timer :: "real \<Rightarrow> unit timeit" where
  "scaling_timer cost statements setup number w = (cost * real number, w)"

definition fresh_run :: "unit runstate" where
  "fresh_run = \<lparr>world = (), timings = []\<rparr>"

text \<open>
  A timer whose readings differ from one timing to the next: the world is a counter, and
  the \<open>n\<close>-th timing of a run reads \<open>n\<close> seconds.
\<close>

definition counting_timer :: "nat timeit" where
  "counting_timer statements setup number w = (real (w + 1), w + 1)"

subsection \<open>\<^verbatim>\<open>runbenchmarks\<close>\<close>

text \<open>
  What a hook may return: any Python value. \<^verbatim>\<open>x is False\<close> holds for the one object
  \<^verbatim>\<open>False\<close> only.
\<close>

datatype pyval = PyNone | PyBool bool | PyInt int | PyFloat real | PyStr string | PyList "pyval list"

definition is_False :: "pyval \<Rightarrow> bool" where
  "is_False v = (v = PyBool False)"

text \<open>
  The trial dict, one field per key (\<open>trial_loops\<close> for \<^verbatim>\<open>trial['loops']\<close>, and so
  on); \<^verbatim>\<open>None\<close> in the three fields of the measurement is \<open>None\<close>.
\<close>

record trial =
  trial_arenafile :: string
  trial_arenaindex :: nat
  trial_arenaname :: string
  trial_arenaprefix :: string
  trial_arenasuffix :: string
  trial_benchfile :: string
  trial_benchindex :: nat
  trial_benchname :: string
  trial_benchstring :: string
  trial_loops :: "nat option"
  trial_mintime :: "real option"
  trial_setupstring :: string
  trial_times :: "real list option"

text \<open>
  A dict is an association list in insertion order; \<^verbatim>\<open>d[k] = v\<close> replaces the value of
  a key that is present and appends a new key. \<^verbatim>\<open>dict(pairs)\<close> and a loop of
  assignments are a fold of that, and \<^verbatim>\<open>d[k]\<close> raises \<^verbatim>\<open>KeyError\<close> on a missing key.
\<close>

definition dict_of_pairs :: "('k \<times> 'v) list \<Rightarrow> ('k \<times> 'v) list" where
  "dict_of_pairs kvs = foldl (\<lambda>d (k, v). AList.update k v d) [] kvs"

definition getitem :: "('k \<times> 'v) list \<Rightarrow> 'k \<Rightarrow> error + 'v" where
  "getitem d k = (case map_of d k of None \<Rightarrow> Inl KeyError | Some v \<Rightarrow> Inr v)"

text \<open>
  The texts that \<^verbatim>\<open>getarenasetup\<close>, \<^verbatim>\<open>getbenchsetup\<close> and
  \<^verbatim>\<open>getbenchstrings\<close> produce (formatted setup code, the source of a benchmark's
  body read from its file) are parameters: the benchmark engine passes them to the timer
  and never looks inside.
\<close>

record snippets =
  arena_setup_text :: "string \<Rightarrow> string \<Rightarrow> string \<Rightarrow> bool \<Rightarrow> string"
  bench_setup_text :: "string \<Rightarrow> string"
  bench_body_text :: "string \<Rightarrow> string \<Rightarrow> string"

definition getarenasetup ::
  "snippets \<Rightarrow> string \<Rightarrow> string \<Rightarrow> string list \<Rightarrow> bool \<Rightarrow> (string \<times> string) list" where
  "getarenasetup sn name filename funcnames cython =
    dict_of_pairs (map (\<lambda>funcname. (funcname, arena_setup_text sn name filename funcname cython))
      funcnames)"

definition getbenchsetup :: "snippets \<Rightarrow> string \<Rightarrow> string" where
  "getbenchsetup sn filename = bench_setup_text sn filename"

definition getbenchstrings :: "snippets \<Rightarrow> string \<Rightarrow> string list \<Rightarrow> (string \<times> string) list" where
  "getbenchstrings sn filename benchnames =
    dict_of_pairs (map (\<lambda>benchname. (benchname, bench_body_text sn filename benchname)) benchnames)"

text \<open>
  An entry of \<^verbatim>\<open>arenalist\<close> is \<^verbatim>\<open>(arenafile, arenaname, arenasetup)\<close>, an entry of
  \<^verbatim>\<open>benchlist\<close> is \<^verbatim>\<open>(benchfile, benchname, benchsetup, benchstring)\<close>.
\<close>

type_synonym arena = "string \<times> string \<times> string"

type_synonym bench = "string \<times> string \<times> string \<times> string"

type_synonym indices = "(string \<times> (string \<times> nat) list) list"

text \<open>
  \<^verbatim>\<open>getarenalist\<close> and \<^verbatim>\<open>getbenchlist\<close> flatten the dicts into tuples and sort them
  with \<^verbatim>\<open>nsorted\<close>; the key of a tuple is the tuple of the keys of its components.
\<close>

definition getarenalist ::
  "snippets \<Rightarrow> string \<Rightarrow> (string \<times> string list) list \<Rightarrow> bool \<Rightarrow> arena list" where
  "getarenalist sn name arenadict cython =
    sort_key (\<lambda>(arenafile, arenaname, arenasetup).
        map numericstringkey [arenafile, arenaname, arenasetup])
      (concat (map (\<lambda>(arenafile, funcnames).
          map (\<lambda>(arenaname, arenasetup). (arenafile, arenaname, arenasetup))
            (getarenasetup sn name arenafile funcnames cython))
        arenadict))"

definition getbenchlist ::
  "snippets \<Rightarrow> (string \<times> string list) list \<Rightarrow> bench list" where
  "getbenchlist sn benchdict =
    sort_key (\<lambda>(benchfile, benchname, benchsetup, benchstring).
        map numericstringkey [benchfile, benchname, benchsetup, benchstring])
      (concat (map (\<lambda>(benchfile, funcnames).
          map (\<lambda>(benchname, benchstring).
              (benchfile, benchname, getbenchsetup sn benchfile, benchstring))
            (getbenchstrings sn benchfile funcnames))
        benchdict))"

text \<open>
  The nested dicts of indices:
  \<^verbatim>\<open>d = dict((item, i) for i, item in enumerate(nsorted(funcnames)))\<close> for every file.
\<close>

definition name_indices :: "string list \<Rightarrow> (string \<times> nat) list" where
  "name_indices funcnames =
    dict_of_pairs (zip (nsorted funcnames) [0 ..< length funcnames])"

definition file_indices :: "(string \<times> string list) list \<Rightarrow> indices" where
  "file_indices filedict =
    dict_of_pairs (map (\<lambda>(filename, funcnames). (filename, name_indices funcnames)) filedict)"

text \<open>
  \<^verbatim>\<open>arenaprefix, arenasuffix = arenaname.split(name, 1)\<close>: the text before and after
  the first occurrence of \<^verbatim>\<open>name\<close>. \<^verbatim>\<open>split\<close> raises \<^verbatim>\<open>ValueError\<close> on an empty
  separator, and the unpacking raises \<^verbatim>\<open>ValueError\<close> when the separator does not occur
  (the list has one item).
\<close>

fun find_sep :: "string \<Rightarrow> string \<Rightarrow> (string \<times> string) option" where
  "find_sep sep [] = (if sep = [] then Some ([], []) else None)"
| "find_sep sep (c # cs) =
    (if prefix sep (c # cs) then Some ([], drop (length sep) (c # cs))
     else map_option (\<lambda>(before, after). (c # before, after)) (find_sep sep cs))"

definition split_name :: "string \<Rightarrow> string \<Rightarrow> error + (string \<times> string)" where
  "split_name arenaname name =
    (if name = [] then Inl ValueError
     else case find_sep name arenaname of
            None \<Rightarrow> Inl ValueError
          | Some parts \<Rightarrow> Inr parts)"

text \<open>\<^verbatim>\<open>min(times)\<close>, which raises \<^verbatim>\<open>ValueError\<close> on an empty list.\<close>

definition py_min :: "real list \<Rightarrow> error + real" where
  "py_min xs = (case xs of [] \<Rightarrow> Inl ValueError | x # rest \<Rightarrow> Inr (fold min rest x))"

text \<open>
  The values that the two loops of \<^verbatim>\<open>runbenchmarks\<close> read: the arguments and the two
  index dicts. A hook is a function of the trial it is given; what it prints or stores is
  not modelled, and it does not change the trial.
\<close>

record 'w bench_env =
  env_name :: string
  env_arenaindices :: indices
  env_benchindices :: indices
  env_mintime :: real
  env_numrepeat :: int
  env_timer :: "'w timeit"
  env_trialfilter :: "(trial \<Rightarrow> pyval) option"
  env_trialcallback :: "(trial \<Rightarrow> pyval) option"

text \<open>The trial of a cell before its measurement: \<^verbatim>\<open>trial = dict(...)\<close>.\<close>

definition make_trial :: "string \<Rightarrow> indices \<Rightarrow> indices \<Rightarrow> bench \<Rightarrow> arena \<Rightarrow> error + trial" where
  "make_trial name arenaindices benchindices bench arena =
    (case bench of (benchfile, benchname, benchsetup, benchstring) \<Rightarrow>
    (case arena of (arenafile, arenaname, arenasetup) \<Rightarrow>
    (let setupstring = benchsetup @ arenasetup in
    (case split_name arenaname name of Inl e \<Rightarrow> Inl e
     | Inr (arenaprefix, arenasuffix) \<Rightarrow>
    (case getitem arenaindices arenafile of Inl e \<Rightarrow> Inl e
     | Inr arenad \<Rightarrow>
    (case getitem arenad arenaname of Inl e \<Rightarrow> Inl e
     | Inr arenaindex \<Rightarrow>
    (case getitem benchindices benchfile of Inl e \<Rightarrow> Inl e
     | Inr benchd \<Rightarrow>
    (case getitem benchd benchname of Inl e \<Rightarrow> Inl e
     | Inr benchindex \<Rightarrow>
       Inr \<lparr>trial_arenafile = arenafile, trial_arenaindex = arenaindex,
            trial_arenaname = arenaname, trial_arenaprefix = arenaprefix,
            trial_arenasuffix = arenasuffix, trial_benchfile = benchfile,
            trial_benchindex = benchindex, trial_benchname = benchname,
            trial_benchstring = benchstring, trial_loops = None, trial_mintime = None,
            trial_setupstring = setupstring, trial_times = None\<rparr>))))))))"

text \<open>
  The body of the inner loop, for one cell. It ends in one of three ways: the filter
  returned \<^verbatim>\<open>False\<close> and the loop goes on to the next cell (\<^verbatim>\<open>continue\<close>); the cell
  was measured and the loop goes on with the trial appended; or the cell was measured,
  the callback returned \<^verbatim>\<open>False\<close> and the function returns (\<^verbatim>\<open>return results\<close>).
\<close>

datatype 'w cell_outcome =
  Skipped
  | Measured trial "'w runstate"
  | Cancelled trial "'w runstate"

definition hook_says_False :: "(trial \<Rightarrow> pyval) option \<Rightarrow> trial \<Rightarrow> bool" where
  "hook_says_False hook t = (case hook of None \<Rightarrow> False | Some f \<Rightarrow> is_False (f t))"

definition run_cell ::
  "'w bench_env \<Rightarrow> bench \<Rightarrow> arena \<Rightarrow> 'w runstate \<Rightarrow> error + 'w cell_outcome" where
  "run_cell env bench arena st =
    (case make_trial (env_name env) (env_arenaindices env) (env_benchindices env) bench arena of
       Inl e \<Rightarrow> Inl e
     | Inr t \<Rightarrow>
       if hook_says_False (env_trialfilter env) t then Inr Skipped
       else
         (case bettertimeit (env_timer env) (trial_benchstring t) (trial_setupstring t)
                 (env_mintime env) (env_numrepeat env) st of
            Inl e \<Rightarrow> Inl e
          | Inr ((times', loops), st1) \<Rightarrow>
            (case py_min times' of Inl e \<Rightarrow> Inl e
             | Inr least \<Rightarrow>
               let t = t\<lparr>trial_loops := Some loops, trial_mintime := Some least,
                          trial_times := Some times'\<rparr>
               in if hook_says_False (env_trialcallback env) t then Inr (Cancelled t st1)
                  else Inr (Measured t st1))))"

text \<open>
  The inner loop over \<^verbatim>\<open>arenalist\<close> and the outer loop over \<^verbatim>\<open>benchlist\<close>, with
  \<^verbatim>\<open>results\<close> as the list being appended to. The inner loop also tells whether it ended
  in the \<^verbatim>\<open>return\<close>.
\<close>

fun arena_loop ::
  "'w bench_env \<Rightarrow> bench \<Rightarrow> arena list \<Rightarrow> trial list \<Rightarrow> 'w runstate
    \<Rightarrow> error + (bool \<times> trial list \<times> 'w runstate)" where
  "arena_loop env bench [] results st = Inr (False, results, st)"
| "arena_loop env bench (arena # arenas) results st =
    (case run_cell env bench arena st of
       Inl e \<Rightarrow> Inl e
     | Inr Skipped \<Rightarrow> arena_loop env bench arenas results st
     | Inr (Measured t st1) \<Rightarrow> arena_loop env bench arenas (results @ [t]) st1
     | Inr (Cancelled t st1) \<Rightarrow> Inr (True, results @ [t], st1))"

fun bench_loop ::
  "'w bench_env \<Rightarrow> bench list \<Rightarrow> arena list \<Rightarrow> trial list \<Rightarrow> 'w runstate
    \<Rightarrow> error + (trial list \<times> 'w runstate)" where
  "bench_loop env [] arenalist results st = Inr (results, st)"
| "bench_loop env (bench # benches) arenalist results st =
    (case arena_loop env bench arenalist results st of
       Inl e \<Rightarrow> Inl e
     | Inr (returned, results1, st1) \<Rightarrow>
       if returned then Inr (results1, st1)
       else bench_loop env benches arenalist results1 st1)"

text \<open>
  \<^verbatim>\<open>ProgressPrinter.__call__\<close> prints a line and returns \<^verbatim>\<open>None\<close>; the output is not
  modelled.
\<close>

definition ProgressPrinter :: "trial \<Rightarrow> pyval" where
  "ProgressPrinter t = PyNone"

definition runbenchmarks ::
  "snippets \<Rightarrow> string \<Rightarrow> (string \<times> string list) list \<Rightarrow> (string \<times> string list) list
    \<Rightarrow> bool \<Rightarrow> bool \<Rightarrow> real \<Rightarrow> int \<Rightarrow> 'w timeit
    \<Rightarrow> (trial \<Rightarrow> pyval) option \<Rightarrow> (trial \<Rightarrow> pyval) option
    \<Rightarrow> 'w runstate \<Rightarrow> error + (trial list \<times> 'w runstate)" where
  "runbenchmarks sn name arenadict benchdict verbose cython mintime numrepeat timer
      trialfilter trialcallback st =
    (let trialcallback =
           (case trialcallback of
              None \<Rightarrow> if verbose then Some ProgressPrinter else None
            | Some f \<Rightarrow> Some f);
         arenalist = getarenalist sn name arenadict cython;
         benchlist = getbenchlist sn benchdict
     in bench_loop
          \<lparr>env_name = name, env_arenaindices = file_indices arenadict,
           env_benchindices = file_indices benchdict, env_mintime = mintime,
           env_numrepeat = numrepeat, env_timer = timer, env_trialfilter = trialfilter,
           env_trialcallback = trialcallback\<rparr>
          benchlist arenalist [] st)"

text \<open>
  A concrete matrix for the scenarios: three candidates in one arena file, two workloads
  in one benchmark file, and texts that name what they load.
\<close>

definition example_snippets :: snippets where
  "example_snippets =
    \<lparr>arena_setup_text = (\<lambda>name filename funcname cython. ''load '' @ funcname @ ''; ''),
     bench_setup_text = (\<lambda>filename. ''import '' @ filename @ ''; ''),
     bench_body_text = (\<lambda>filename benchname. ''body of '' @ benchname)\<rparr>"

definition example_arenadict :: "(string \<times> string list) list" where
  "example_arenadict = [(''arena_zeros.py'', [''zeros_slow'', ''zeros_mul'', ''zeros_imul''])]"

definition example_benchdict :: "(string \<times> string list) list" where
  "example_benchdict = [(''bench_zeros.py'', [''bench_n10'', ''bench_n2''])]"

subsection \<open>The matrix of cells, for stating what \<^verbatim>\<open>runbenchmarks\<close> does\<close>

text \<open>
  The two loops visit the cells of the matrix row by row: every workload of
  \<^verbatim>\<open>benchlist\<close> with every candidate of \<^verbatim>\<open>arenalist\<close>. \<open>cells_loop\<close> runs the loop
  body over a list of cells and returns the trials it appended; lemma
  \<open>bench_loop_cells\<close> shows that the two nested loops do the same on the product of
  the two lists.
\<close>

fun cells_loop ::
  "'w bench_env \<Rightarrow> (bench \<times> arena) list \<Rightarrow> 'w runstate \<Rightarrow> error + (trial list \<times> 'w runstate)" where
  "cells_loop env [] st = Inr ([], st)"
| "cells_loop env ((bench, arena) # cells) st =
    (case run_cell env bench arena st of
       Inl e \<Rightarrow> Inl e
     | Inr Skipped \<Rightarrow> cells_loop env cells st
     | Inr (Measured t st1) \<Rightarrow>
         (case cells_loop env cells st1 of
            Inl e \<Rightarrow> Inl e
          | Inr (ts, st2) \<Rightarrow> Inr (t # ts, st2))
     | Inr (Cancelled t st1) \<Rightarrow> Inr ([t], st1))"

text \<open>The trials of all cells before their measurement, in the order of the loops.\<close>

fun all_trials :: "string \<Rightarrow> indices \<Rightarrow> indices \<Rightarrow> (bench \<times> arena) list \<Rightarrow> error + trial list" where
  "all_trials name arenaindices benchindices [] = Inr []"
| "all_trials name arenaindices benchindices ((bench, arena) # cells) =
    (case make_trial name arenaindices benchindices bench arena of
       Inl e \<Rightarrow> Inl e
     | Inr t \<Rightarrow>
         (case all_trials name arenaindices benchindices cells of
            Inl e \<Rightarrow> Inl e
          | Inr ts \<Rightarrow> Inr (t # ts)))"

definition matrix_trials ::
  "snippets \<Rightarrow> string \<Rightarrow> (string \<times> string list) list \<Rightarrow> (string \<times> string list) list \<Rightarrow> bool
    \<Rightarrow> error + trial list" where
  "matrix_trials sn name arenadict benchdict cython =
    all_trials name (file_indices arenadict) (file_indices benchdict)
      (List.product (getbenchlist sn benchdict) (getarenalist sn name arenadict cython))"

text \<open>A measured trial with its three fields of the measurement set back to \<^verbatim>\<open>None\<close>.\<close>

definition unmeasured :: "trial \<Rightarrow> trial" where
  "unmeasured t = t\<lparr>trial_loops := None, trial_mintime := None, trial_times := None\<rparr>"

text \<open>A hook that is absent, or that returns the object \<^verbatim>\<open>False\<close> for no trial.\<close>

definition never_False :: "(trial \<Rightarrow> pyval) option \<Rightarrow> bool" where
  "never_False hook = (case hook of None \<Rightarrow> True | Some f \<Rightarrow> (\<forall>t. \<not> is_False (f t)))"

text \<open>A timing made for a trial: with the trial's statements and setup.\<close>

definition timing_of :: "trial \<Rightarrow> string \<times> string \<times> nat \<Rightarrow> bool" where
  "timing_of t e = (fst e = trial_benchstring t \<and> fst (snd e) = trial_setupstring t)"


subsection \<open>\<^verbatim>\<open>BenchPrinter._build_table\<close>\<close>

text \<open>
  \<^verbatim>\<open>_strip_prefix(sval, prefix)\<close>: no prefixes (\<^verbatim>\<open>None\<close>) leaves the name; otherwise the
  prefixes are tried from longest to shortest (\<^verbatim>\<open>sorted(prefix, key=len, reverse=True)\<close>,
  a stable sort) and the first that the name starts with is cut off. A single string for
  \<^verbatim>\<open>prefix\<close> is the list of that one string.
\<close>

fun strip_first :: "string \<Rightarrow> string list \<Rightarrow> string" where
  "strip_first sval [] = sval"
| "strip_first sval (pre # pres) =
    (if prefix pre sval then drop (length pre) sval else strip_first sval pres)"

definition strip_prefix' :: "string \<Rightarrow> string list option \<Rightarrow> string" where
  "strip_prefix' sval prefs =
    (case prefs of
       None \<Rightarrow> sval
     | Some pres \<Rightarrow> strip_first sval (sort_key (\<lambda>pre. - int (length pre)) pres))"

text \<open>
  The dict \<^verbatim>\<open>datum\<close> as the first loop builds it, and as it is after the two
  \<^verbatim>\<open>datum.update(...)\<close> of the second loop (\<open>datum_rank\<close> for \<^verbatim>\<open>datum['rank']\<close>, and so
  on). \<^verbatim>\<open>seconds\<close> is \<^verbatim>\<open>trial['mintime']\<close>, which is \<^verbatim>\<open>None\<close> for a trial that
  was not measured.
\<close>

record datum =
  datum_arenaindex :: nat
  datum_arenaname :: string
  datum_arenashort :: string
  datum_benchindex :: nat
  datum_benchname :: string
  datum_benchshort :: string
  datum_loops :: "nat option"
  datum_seconds :: "real option"
  datum_trialdata :: trial

record table_datum = datum +
  datum_isbest :: bool
  datum_rank :: nat
  datum_reltime :: real
  datum_scale :: real
  datum_time :: real
  datum_units :: string
  datum_sreltime :: string
  datum_stime :: string

definition trial_datum :: "string list option \<Rightarrow> string list option \<Rightarrow> trial \<Rightarrow> datum" where
  "trial_datum arenaprefixes benchprefixes t =
    \<lparr>datum_arenaindex = trial_arenaindex t,
     datum_arenaname = trial_arenaname t,
     datum_arenashort = strip_prefix' (trial_arenaname t) arenaprefixes,
     datum_benchindex = trial_benchindex t,
     datum_benchname = trial_benchname t,
     datum_benchshort = strip_prefix' (trial_benchname t) benchprefixes,
     datum_loops = trial_loops t,
     datum_seconds = trial_mintime t,
     datum_trialdata = t\<rparr>"

text \<open>
  The first loop: \<^verbatim>\<open>bybench[benchindex][arenaindex] = datum\<close>, with a new inner dict
  for a \<^verbatim>\<open>benchindex\<close> not yet present. A later trial of the same cell replaces the
  earlier one.
\<close>

definition add_datum ::
  "(nat \<times> (nat \<times> datum) list) list \<Rightarrow> datum \<Rightarrow> (nat \<times> (nat \<times> datum) list) list" where
  "add_datum bybench d =
    (let arenadict = (case map_of bybench (datum_benchindex d) of None \<Rightarrow> [] | Some ad \<Rightarrow> ad)
     in AList.update (datum_benchindex d) (AList.update (datum_arenaindex d) d arenadict) bybench)"

text \<open>
  The second loop, for the values of one inner dict (one row). The sorted times, the
  smallest and the largest, and \<^verbatim>\<open>ranks = dict(zip(sortedvals, range(1, n + 1)))\<close>: a
  dict keeps one value per key, the last one given. Then for every datum the first
  update, where \<^verbatim>\<open>ranks[seconds]\<close> can raise \<^verbatim>\<open>KeyError\<close> and \<^verbatim>\<open>seconds / minval\<close>
  raises \<^verbatim>\<open>ZeroDivisionError\<close> when \<^verbatim>\<open>minval\<close> is zero, and the second update with
  the two strings \<^verbatim>\<open>'%.3g' % x\<close>. The formatting of a float is the parameter \<open>fmt\<close>.
  A time that is \<^verbatim>\<open>None\<close> raises \<^verbatim>\<open>TypeError\<close> (in the comparisons or in the division).
\<close>

fun those_seconds :: "datum list \<Rightarrow> real list option" where
  "those_seconds [] = Some []"
| "those_seconds (d # ds) =
    (case datum_seconds d of
       None \<Rightarrow> None
     | Some s \<Rightarrow> (case those_seconds ds of None \<Rightarrow> None | Some ss \<Rightarrow> Some (s # ss)))"

definition update_datum ::
  "(real \<Rightarrow> string) \<Rightarrow> real \<Rightarrow> (real \<times> nat) list \<Rightarrow> real \<Rightarrow> string \<Rightarrow> datum
    \<Rightarrow> error + table_datum" where
  "update_datum fmt minval ranks scale units d =
    (case datum_seconds d of
       None \<Rightarrow> Inl TypeError
     | Some seconds \<Rightarrow>
        (case getitem ranks seconds of
           Inl e \<Rightarrow> Inl e
         | Inr rank \<Rightarrow>
            if minval = 0 then Inl ZeroDivisionError
            else
              (let reltime = seconds / minval;
                   time = seconds * scale
               in Inr (datum.extend d
                    (table_datum.fields (seconds = minval) rank reltime scale time units
                       (fmt reltime) (fmt time))))))"

fun update_data ::
  "(datum \<Rightarrow> error + table_datum) \<Rightarrow> datum list \<Rightarrow> error + table_datum list" where
  "update_data f [] = Inr []"
| "update_data f (d # ds) =
    (case f d of
       Inl e \<Rightarrow> Inl e
     | Inr d' \<Rightarrow> (case update_data f ds of Inl e \<Rightarrow> Inl e | Inr ds' \<Rightarrow> Inr (d' # ds')))"

definition finish_row :: "(real \<Rightarrow> string) \<Rightarrow> datum list \<Rightarrow> error + table_datum list" where
  "finish_row fmt values =
    (case those_seconds values of
       None \<Rightarrow> Inl TypeError
     | Some secs \<Rightarrow>
        (case sort secs of
           [] \<Rightarrow> Inl IndexError
         | minval # rest \<Rightarrow>
            (let sortedvals = minval # rest;
                 maxval = last sortedvals;
                 ranks = dict_of_pairs (zip sortedvals [1 ..< length sortedvals + 1]);
                 (scale, units) = best_units maxval;
                 units = units @ ''s''
             in update_data (update_datum fmt minval ranks scale units) values)))"

text \<open>
  The rows in the order of the first loop, each finished; then
  \<^verbatim>\<open>for benchindex, arenadict in sorted(bybench.items())\<close> and
  \<^verbatim>\<open>for arenaindex, datum in sorted(arenadict.items())\<close>: rows by ascending
  \<^verbatim>\<open>benchindex\<close>, the cells of a row by ascending \<^verbatim>\<open>arenaindex\<close> (the keys of a dict
  are distinct, so the order of the items is the order of the keys).
\<close>

fun finish_rows ::
  "(real \<Rightarrow> string) \<Rightarrow> (nat \<times> (nat \<times> datum) list) list
    \<Rightarrow> error + (nat \<times> (nat \<times> table_datum) list) list" where
  "finish_rows fmt [] = Inr []"
| "finish_rows fmt ((benchindex, arenadict) # rows) =
    (case finish_row fmt (map snd arenadict) of
       Inl e \<Rightarrow> Inl e
     | Inr ds \<Rightarrow>
        (case finish_rows fmt rows of
           Inl e \<Rightarrow> Inl e
         | Inr rows' \<Rightarrow> Inr ((benchindex, zip (map fst arenadict) ds) # rows')))"

definition build_table ::
  "(real \<Rightarrow> string) \<Rightarrow> string list option \<Rightarrow> string list option \<Rightarrow> trial list
    \<Rightarrow> error + table_datum list list" where
  "build_table fmt arenaprefixes benchprefixes trials =
    (let bybench = foldl add_datum [] (map (trial_datum arenaprefixes benchprefixes) trials)
     in case finish_rows fmt bybench of
          Inl e \<Rightarrow> Inl e
        | Inr rows \<Rightarrow>
            Inr (map (\<lambda>(benchindex, arenadict). map snd (sort_key fst arenadict))
                   (sort_key fst rows)))"

text \<open>The data stored in the nested dict \<^verbatim>\<open>bybench\<close>.\<close>

definition bybench_data :: "(nat \<times> (nat \<times> datum) list) list \<Rightarrow> datum set" where
  "bybench_data bybench = {d. \<exists>bi ad ai. (bi, ad) \<in> set bybench \<and> (ai, d) \<in> set ad}"

text \<open>A measured trial of a cell, for concrete tables.\<close>

definition measured_trial :: "nat \<Rightarrow> nat \<Rightarrow> string \<Rightarrow> real \<Rightarrow> trial" where
  "measured_trial benchindex arenaindex arenaname seconds =
    \<lparr>trial_arenafile = ''arena_zeros.py'', trial_arenaindex = arenaindex,
     trial_arenaname = arenaname, trial_arenaprefix = [], trial_arenasuffix = [],
     trial_benchfile = ''bench_zeros.py'', trial_benchindex = benchindex,
     trial_benchname = ''bench_n2'', trial_benchstring = ''body of bench_n2'',
     trial_loops = Some 256, trial_mintime = Some seconds,
     trial_setupstring = ''import bench_zeros.py; load '' @ arenaname @ ''; '',
     trial_times = Some [seconds, seconds, seconds]\<rparr>"

text \<open>A formatting of floats for concrete tables: every float as the empty string.\<close>

definition no_format :: "real \<Rightarrow> string" where
  "no_format x = []"

subsection \<open>\<^verbatim>\<open>BenchPrinter.to_gfm\<close>\<close>

text \<open>\<^verbatim>\<open>str(n)\<close> of a rank, \<^verbatim>\<open>sep.join(items)\<close> and \<^verbatim>\<open>sval.center(width)\<close>.\<close>

function str_nat :: "nat \<Rightarrow> string" where
  "str_nat n =
    (if n < 10 then [char_of (48 + n)]
     else str_nat (n div 10) @ [char_of (48 + n mod 10)])"
  by pat_completeness auto
termination
  by (relation "measure id") auto

declare str_nat.simps [simp del]

fun join :: "string \<Rightarrow> string list \<Rightarrow> string" where
  "join sep [] = []"
| "join sep [item] = item"
| "join sep (item # items) = item @ sep @ join sep items"

text \<open>
  \<^verbatim>\<open>str.center\<close> pads with blanks on both sides; when the padding is odd, the extra
  blank goes to the left if the width is odd as well, to the right otherwise.
\<close>

definition center :: "string \<Rightarrow> nat \<Rightarrow> string" where
  "center sval width =
    (if width \<le> length sval then sval
     else
       (let marg = width - length sval;
            left = marg div 2 + (if odd marg \<and> odd width then 1 else 0)
        in replicate left CHR '' '' @ sval @ replicate (marg - left) CHR '' ''))"

text \<open>
  The string of one cell: the relative time, the rank or the time, emphasised for rank 1
  and, in a row of more than two cells, for rank 2.
\<close>

definition cell_string :: "bool \<Rightarrow> bool \<Rightarrow> nat \<Rightarrow> table_datum \<Rightarrow> string" where
  "cell_string relative rank rowlen d =
    (let val = (if relative then datum_sreltime d
                else if rank then str_nat (datum_rank d)
                else datum_stime d)
     in if datum_rank d = 1 then '' __'' @ val @ ''__ ''
        else if datum_rank d = 2 \<and> rowlen > 2 then '' *'' @ val @ ''* ''
        else '' '' @ val @ '' '')"

text \<open>
  The loop over the rows of the table: \<^verbatim>\<open>datum = row[0]\<close> raises \<^verbatim>\<open>IndexError\<close> on
  an empty row; the label of a row carries the units unless a relative or a rank view is
  asked for (the backquote is character 96).
\<close>

fun gfm_rows :: "bool \<Rightarrow> bool \<Rightarrow> table_datum list list \<Rightarrow> error + string list list" where
  "gfm_rows relative rank [] = Inr []"
| "gfm_rows relative rank (row # rows) =
    (case row of
       [] \<Rightarrow> Inl IndexError
     | datum # _ \<Rightarrow>
        (let sval =
               (if relative \<or> rank then '' __'' @ datum_benchshort datum @ ''__ ''
                else '' __'' @ datum_benchshort datum @ ''__ ('' @ [char_of (96 :: nat)]
                       @ datum_units datum @ [char_of (96 :: nat)] @ '') '');
             crow = sval # map (cell_string relative rank (length row)) row
         in case gfm_rows relative rank rows of
              Inl e \<Rightarrow> Inl e
            | Inr crows \<Rightarrow> Inr (crow # crows)))"

text \<open>
  \<^verbatim>\<open>maxwidths[i] = max(maxwidths[i], len(sval))\<close> over every row of \<^verbatim>\<open>data\<close>, with
  \<^verbatim>\<open>IndexError\<close> for a row that has more items than the header row.
\<close>

fun widths_row :: "nat list \<Rightarrow> nat \<Rightarrow> string list \<Rightarrow> error + nat list" where
  "widths_row maxwidths i [] = Inr maxwidths"
| "widths_row maxwidths i (sval # svals) =
    (if i < length maxwidths
     then widths_row (maxwidths[i := max (maxwidths ! i) (length sval)]) (i + 1) svals
     else Inl IndexError)"

fun widths_data :: "nat list \<Rightarrow> string list list \<Rightarrow> error + nat list" where
  "widths_data maxwidths [] = Inr maxwidths"
| "widths_data maxwidths (row # rows) =
    (case widths_row maxwidths 0 row of
       Inl e \<Rightarrow> Inl e
     | Inr maxwidths' \<Rightarrow> widths_data maxwidths' rows)"

text \<open>Row labels are justified to the right, the other columns are centred.\<close>

definition justify_row :: "nat list \<Rightarrow> string list \<Rightarrow> string list" where
  "justify_row maxwidths row =
    map (\<lambda>(i, sval).
          if i = 0 then replicate (maxwidths ! i - length sval) CHR '' '' @ sval
          else center sval (maxwidths ! i))
      (zip [0 ..< length row] row)"

text \<open>
  \<^verbatim>\<open>to_gfm\<close>. The test of \<^verbatim>\<open>relative and rank\<close> is its first statement;
  \<^verbatim>\<open>table[0]\<close> raises \<^verbatim>\<open>IndexError\<close> on a table without rows. The line separator
  \<^verbatim>\<open>os.linesep\<close> is a parameter (the backslash of the header is character 92).
\<close>

definition to_gfm :: "string \<Rightarrow> table_datum list list \<Rightarrow> bool \<Rightarrow> bool \<Rightarrow> error + string" where
  "to_gfm linesep table relative rank =
    (if relative \<and> rank then Inl ValueError
     else
       (case table of
          [] \<Rightarrow> Inl IndexError
        | row0 # _ \<Rightarrow>
           (let column_names =
                  (''__Bench__ '' @ [char_of (92 :: nat)] @ '' __Func__ '')
                    # map (\<lambda>datum. '' __'' @ datum_arenashort datum @ ''__ '') row0
            in case gfm_rows relative rank table of
                 Inl e \<Rightarrow> Inl e
               | Inr crows \<Rightarrow>
                  (let data = column_names # crows
                   in case widths_data (replicate (length column_names) 0) data of
                        Inl e \<Rightarrow> Inl e
                      | Inr maxwidths \<Rightarrow>
                         (let data = map (justify_row maxwidths) data;
                              headerbar =
                                map (\<lambda>len. '':'' @ replicate (len - 2) CHR ''-'' @ '':'')
                                  maxwidths
                          in case headerbar of
                               [] \<Rightarrow> Inl IndexError
                             | bar0 # bars \<Rightarrow>
                                (let headerbar = ('' '' @ tl bar0) # bars;
                                     data = hd data # headerbar # tl data
                                 in Inr (join linesep
                                      (map (\<lambda>row. ''|'' @ join ''|'' row @ ''|'') data))))))))"

text \<open>
  A table that \<^verbatim>\<open>to_gfm\<close> can render: it has a row, no row is empty, and no row has
  more cells than the first one.
\<close>

definition well_formed_table :: "table_datum list list \<Rightarrow> bool" where
  "well_formed_table table =
    (table \<noteq> [] \<and> list_all (\<lambda>row. row \<noteq> [] \<and> length row \<le> length (hd table)) table)"

subsection \<open>Theorems about \<^verbatim>\<open>best_units\<close>\<close>

text \<open>
  Claim C4, at a row maximum below the ladder: for \<open>1e-16\<close> seconds \<^verbatim>\<open>best_units\<close>
  returns the femto scale \<open>1e15\<close> with prefix \<^verbatim>\<open>'f'\<close>, and the scaled value is
  \<open>0.1\<close>, below \<open>1\<close>, where the docstring of \<^verbatim>\<open>best_units\<close> promises
  \<open>1 \<le> num * scale < 1000\<close>. At \<open>1e15\<close> seconds it returns the tera scale, and the
  scaled value is \<open>1000\<close>.
\<close>

theorem best_units_outside_ladder:
  "best_units (1 / 10 ^ 16) = (10 ^ 15, ''f'')
   \<and> (1 / 10 ^ 16) * fst (best_units (1 / 10 ^ 16)) = 1 / 10
   \<and> \<not> 1 \<le> (1 / 10 ^ 16) * fst (best_units (1 / 10 ^ 16))
   \<and> best_units (10 ^ 15) = (1 / 10 ^ 12, ''T'')
   \<and> \<not> 10 ^ 15 * fst (best_units (10 ^ 15)) < 1000"
  by (simp add: best_units_def)

text \<open>
  Inside the ladder, \<open>1e-15 \<le> m < 1e15\<close>, the scale gives \<open>1 \<le> m * scale < 1000\<close>;
  the prefix is one of the ten of the ladder; a maximum of exactly \<open>1.0\<close> takes scale
  \<open>1.0\<close> and the empty prefix, \<open>999e-3\<close> takes the milli scale \<open>(1e3, 'm')\<close>, and
  \<open>1000e-3\<close> the base scale.
\<close>

lemma best_units_inside_ladder:
  "(1 / 10 ^ 15 \<le> m \<and> m < 10 ^ 15 \<longrightarrow>
      1 \<le> m * fst (best_units m) \<and> m * fst (best_units m) < 1000)
   \<and> snd (best_units m) \<in> {''f'', ''p'', ''n'', ''u'', ''m'', '''', ''k'', ''M'', ''G'', ''T''}
   \<and> best_units 1 = (1, '''')
   \<and> best_units (999 / 10 ^ 3) = (10 ^ 3, ''m'')
   \<and> best_units (1000 / 10 ^ 3) = (1, '''')"
proof -
  have scaled: "1 / 10 ^ 15 \<le> m \<and> m < 10 ^ 15 \<longrightarrow>
      1 \<le> m * fst (best_units m) \<and> m * fst (best_units m) < 1000"
    by (simp add: best_units_def field_simps)
  have ladder: "snd (best_units m) \<in> {''f'', ''p'', ''n'', ''u'', ''m'', '''', ''k'', ''M'', ''G'', ''T''}"
    by (simp add: best_units_def)
  have one: "best_units 1 = (1, '''')"
    by (simp add: best_units_def)
  have milli: "best_units (999 / 10 ^ 3) = (10 ^ 3, ''m'')"
    by (simp add: best_units_def)
  have base: "best_units (1000 / 10 ^ 3) = (1, '''')"
    by (simp add: best_units_def)
  from scaled ladder one milli base show ?thesis by blast
qed

subsection \<open>Theorems about \<^verbatim>\<open>numericstringkey\<close> and \<^verbatim>\<open>nsorted\<close>\<close>

lemma re_split_digits_shape:
  "i < length (re_split_digits s) \<Longrightarrow>
     (if even i then list_all (\<lambda>c. \<not> isdigit c) (re_split_digits s ! i)
      else re_split_digits s ! i \<noteq> [] \<and> list_all isdigit (re_split_digits s ! i))"
proof (induction s arbitrary: i rule: re_split_digits.induct)
  case (1 s)
  let ?text = "takeWhile (\<lambda>c. \<not> isdigit c) s"
  let ?rest = "dropWhile (\<lambda>c. \<not> isdigit c) s"
  have nondig: "list_all (\<lambda>c. \<not> isdigit c) ?text"
    by (simp add: list_all_iff) (metis set_takeWhileD)
  show ?case
  proof (cases "?rest = []")
    case True
    then have "re_split_digits s = [?text]"
      by (subst re_split_digits.simps) simp
    with 1 nondig show ?thesis by simp
  next
    case False
    then have unfold: "re_split_digits s =
        ?text # takeWhile isdigit ?rest # re_split_digits (dropWhile isdigit ?rest)"
      by (subst re_split_digits.simps) (simp add: Let_def)
    have "isdigit (hd ?rest)"
      using hd_dropWhile [OF False] by simp
    then have run: "takeWhile isdigit ?rest \<noteq> []"
      using False by (cases ?rest) auto
    have digits: "list_all isdigit (takeWhile isdigit ?rest)"
      by (simp add: list_all_iff) (metis set_takeWhileD)
    show ?thesis
    proof (cases i)
      case 0
      with unfold nondig show ?thesis by simp
    next
      case (Suc j)
      show ?thesis
      proof (cases j)
        case 0
        with Suc unfold run digits show ?thesis by simp
      next
        case (Suc k)
        have k: "k < length (re_split_digits (dropWhile isdigit ?rest))"
          using "1.prems" unfold \<open>i = Suc j\<close> Suc by simp
        have "if even k
              then list_all (\<lambda>c. \<not> isdigit c) (re_split_digits (dropWhile isdigit ?rest) ! k)
              else re_split_digits (dropWhile isdigit ?rest) ! k \<noteq> [] \<and>
                   list_all isdigit (re_split_digits (dropWhile isdigit ?rest) ! k)"
          using "1.IH" [OF refl refl False k] .
        with unfold \<open>i = Suc j\<close> Suc show ?thesis by simp
      qed
    qed
  qed
qed

lemma concat_re_split_digits: "concat (re_split_digits s) = s"
proof (induction s rule: re_split_digits.induct)
  case (1 s)
  let ?rest = "dropWhile (\<lambda>c. \<not> isdigit c) s"
  show ?case
  proof (cases "?rest = []")
    case True
    then have "re_split_digits s = [takeWhile (\<lambda>c. \<not> isdigit c) s]"
      by (subst re_split_digits.simps) simp
    moreover have "takeWhile (\<lambda>c. \<not> isdigit c) s = s"
      using True takeWhile_dropWhile_id [of "\<lambda>c. \<not> isdigit c" s] by simp
    ultimately show ?thesis by simp
  next
    case False
    then have unfold: "re_split_digits s =
        takeWhile (\<lambda>c. \<not> isdigit c) s # takeWhile isdigit ?rest
          # re_split_digits (dropWhile isdigit ?rest)"
      by (subst re_split_digits.simps) (simp add: Let_def)
    have "concat (re_split_digits (dropWhile isdigit ?rest)) = dropWhile isdigit ?rest"
      using "1.IH" [OF refl refl False] .
    with unfold show ?thesis by simp
  qed
qed

lemma py_int_text: "list_all (\<lambda>c. \<not> isdigit c) item \<Longrightarrow> py_int item = None"
  by (cases item) (auto simp: py_int_def)

lemma numericstringkey_kinds:
  assumes "i < length (numericstringkey s)"
  shows "(\<exists>n. numericstringkey s ! i = KInt n) \<longleftrightarrow> odd i"
proof -
  have i: "i < length (re_split_digits s)"
    using assms by (simp add: numericstringkey_def)
  show ?thesis
  proof (cases "even i")
    case True
    then have "py_int (re_split_digits s ! i) = None"
      using re_split_digits_shape [OF i] by (simp add: py_int_text)
    with True i show ?thesis by (simp add: numericstringkey_def)
  next
    case False
    then have "py_int (re_split_digits s ! i) \<noteq> None"
      using re_split_digits_shape [OF i] by (simp add: py_int_def)
    with False i show ?thesis by (auto simp: numericstringkey_def)
  qed
qed

lemma re_split_digits_text_run:
  assumes "list_all (\<lambda>c. \<not> isdigit c) p" "d \<noteq> []" "list_all isdigit d"
  shows "re_split_digits (p @ d) = [p, d, []]"
proof -
  have p: "\<forall>c\<in>set p. \<not> isdigit c" and d: "\<forall>c\<in>set d. isdigit c"
    using assms by (simp_all add: list_all_iff)
  have hd: "isdigit (hd d)" using assms(2) d by (cases d) auto
  have t: "takeWhile (\<lambda>c. \<not> isdigit c) (p @ d) = p"
    using p hd assms(2) by (cases d) (simp_all add: takeWhile_append2)
  have r: "dropWhile (\<lambda>c. \<not> isdigit c) (p @ d) = d"
    using p hd assms(2) by (cases d) (simp_all add: dropWhile_append2)
  have td: "takeWhile isdigit d = d" and dd: "dropWhile isdigit d = []"
    using d by simp_all
  have e: "re_split_digits [] = [[]]"
    by (subst re_split_digits.simps) simp
  show ?thesis
    by (subst re_split_digits.simps) (simp add: t r td dd e assms(2))
qed

lemma numericstringkey_text_run:
  assumes "list_all (\<lambda>c. \<not> isdigit c) p" "py_int d = Some n"
  shows "numericstringkey (p @ d) = [KStr p, KInt n, KStr []]"
proof -
  have d: "d \<noteq> []" "list_all isdigit d"
    using assms(2) by (auto simp: py_int_def split: if_splits)
  have "py_int [] = None" by (simp add: py_int_def)
  then show ?thesis
    using assms d
    by (simp add: numericstringkey_def re_split_digits_text_run py_int_text)
qed

lemma numericstringkey_run_less:
  assumes "list_all (\<lambda>c. \<not> isdigit c) p" "py_int d1 = Some m" "py_int d2 = Some n"
  shows "numericstringkey (p @ d1) < numericstringkey (p @ d2) \<longleftrightarrow> m < n"
  using assms by (auto simp: numericstringkey_text_run less_keyitem_def less_eq_keyitem_def)

text \<open>
  Claim C9: the natural sort compares embedded digit runs as integers, not character by
  character. For every list of strings, \<^verbatim>\<open>nsorted\<close> returns a rearrangement of the
  list whose keys ascend; two strings with the same digit-free text followed by one digit
  run each compare as the integer values of their runs; and
  \<^verbatim>\<open>nsorted(["a2", "a10", "a1"])\<close> is \<^verbatim>\<open>["a1", "a2", "a10"]\<close>.
\<close>

theorem nsorted_natural_order:
  "sorted (map numericstringkey (nsorted xs))
   \<and> mset (nsorted xs) = mset xs
   \<and> (list_all (\<lambda>c. \<not> isdigit c) p \<and> py_int d1 = Some m \<and> py_int d2 = Some n \<longrightarrow>
        (numericstringkey (p @ d1) < numericstringkey (p @ d2)) = (m < n))
   \<and> nsorted [''a2'', ''a10'', ''a1''] = [''a1'', ''a2'', ''a10'']"
proof -
  have ascending: "sorted (map numericstringkey (nsorted xs))"
    by (simp add: nsorted_def)
  have rearranged: "mset (nsorted xs) = mset xs"
    by (simp add: nsorted_def)
  have runs: "list_all (\<lambda>c. \<not> isdigit c) p \<and> py_int d1 = Some m \<and> py_int d2 = Some n \<longrightarrow>
      (numericstringkey (p @ d1) < numericstringkey (p @ d2)) = (m < n)"
    by (auto simp: numericstringkey_text_run less_keyitem_def less_eq_keyitem_def)
  have example: "nsorted [''a2'', ''a10'', ''a1''] = [''a1'', ''a2'', ''a10'']"
    by code_simp
  from ascending rearranged runs example show ?thesis by blast
qed

theorem nsorted_natural_order_witness:
  "list_all (\<lambda>c. \<not> isdigit c) ''name'' \<and> py_int ''2'' = Some 2 \<and> py_int ''10'' = Some 10
   \<and> numericstringkey (''name'' @ ''2'') < numericstringkey (''name'' @ ''10'')"
proof -
  have p: "list_all (\<lambda>c. \<not> isdigit c) ''name''" by code_simp
  have d1: "py_int ''2'' = Some 2" by code_simp
  have d2: "py_int ''10'' = Some 10" by code_simp
  show ?thesis
    using nsorted_natural_order [of "[]" "''name''" "''2''" 2 "''10''" 10] p d1 d2 by simp
qed

subsection \<open>Theorems about \<^verbatim>\<open>bettertimeit\<close>\<close>

lemma timer_timeit_timings:
  "timings (snd (timer_timeit timer statements setup number st)) =
     timings st @ [(statements, setup, number)]"
  by (simp add: timer_timeit_def split: prod.splits)

lemma timer_repeat_result:
  "length (fst (timer_repeat timer statements setup k number st)) = k
   \<and> timings (snd (timer_repeat timer statements setup k number st)) =
       timings st @ replicate k (statements, setup, number)"
proof (induction k arbitrary: st)
  case 0
  show ?case by simp
next
  case (Suc k)
  obtain elapsed st1 where t: "timer_timeit timer statements setup number st = (elapsed, st1)"
    by (cases "timer_timeit timer statements setup number st")
  have st1: "timings st1 = timings st @ [(statements, setup, number)]"
    using timer_timeit_timings [of timer statements "setup" number st] t by simp
  obtain r st2 where r: "timer_repeat timer statements setup k number st1 = (r, st2)"
    by (cases "timer_repeat timer statements setup k number st1")
  from Suc.IH [of st1] r st1 have
    "length r = k \<and> timings st2 = timings st @ (statements, setup, number) # replicate k (statements, setup, number)"
    by simp
  with t r show ?case by simp
qed

lemma scale_loops_pos: "1 \<le> loops \<Longrightarrow> 1 \<le> scale_loops mintime runtime loops"
  by (simp add: scale_loops_def)

lemma probe_result:
  assumes "1 \<le> loops"
    and "probe timer statements setup mintime rounds loops runtime st = (loops', runtime', st')"
  shows "1 \<le> loops'
    \<and> length (timings st') \<le> length (timings st) + rounds
    \<and> (0 < rounds \<longrightarrow>
         (\<exists>r. runtime' = Some r
            \<and> (mintime < r \<longrightarrow> last (timings st') = (statements, setup, loops'))
            \<and> (\<not> mintime < r \<longrightarrow> length (timings st') = length (timings st) + rounds)))"
  using assms
proof (induction rounds arbitrary: loops runtime st)
  case 0
  then show ?case by simp
next
  case (Suc rounds)
  obtain elapsed st1 where t: "timer_timeit timer statements setup loops st = (elapsed, st1)"
    by (cases "timer_timeit timer statements setup loops st")
  have st1: "timings st1 = timings st @ [(statements, setup, loops)]"
    using timer_timeit_timings [of timer statements "setup" loops st] t by simp
  have step: "probe timer statements setup mintime (Suc rounds) loops runtime st =
      (if mintime < elapsed then (loops, Some elapsed, st1)
       else probe timer statements setup mintime rounds
              (scale_loops mintime elapsed loops) (Some elapsed) st1)"
    using t by simp
  show ?case
  proof (cases "mintime < elapsed")
    case True
    with Suc.prems step have "loops' = loops" "runtime' = Some elapsed" "st' = st1"
      by simp_all
    with True st1 Suc.prems(1) show ?thesis by simp
  next
    case False
    with Suc.prems step have p: "probe timer statements setup mintime rounds
        (scale_loops mintime elapsed loops) (Some elapsed) st1 = (loops', runtime', st')"
      by simp
    note ih = Suc.IH [OF scale_loops_pos [OF Suc.prems(1)] p]
    show ?thesis
    proof (cases rounds)
      case 0
      with p have "loops' = scale_loops mintime elapsed loops" "runtime' = Some elapsed" "st' = st1"
        by simp_all
      with 0 False st1 scale_loops_pos [OF Suc.prems(1)] show ?thesis by simp
    next
      case (Suc n)
      with ih st1 show ?thesis by auto
    qed
  qed
qed


text \<open>
  Claim C1: for every \<open>mintime\<close> and every timer (so for every \<open>mintime > 0\<close> and every
  timer that scales monotonically with the loop count), \<^verbatim>\<open>bettertimeit\<close> makes at
  most 32 probing timings, returns normally and returns \<open>loops \<ge> 1\<close>. The last entry of
  the returned times is the last probing reading divided by the returned loops. When that
  reading exceeds \<open>mintime\<close> (convergence), it was taken at the returned loop count, and
  loops times this per-iteration time is at least \<open>mintime\<close>. When no probe exceeds
  \<open>mintime\<close>, all 32 rounds are used and the function still returns, with the loop count
  reached.
\<close>

theorem bettertimeit_probing:
  "\<exists>loops runtime st1 times st2.
     probe timer statements setup mintime 32 1 None st = (loops, Some runtime, st1)
     \<and> length (timings st1) \<le> length (timings st) + 32
     \<and> bettertimeit timer statements setup mintime numrepeat st = Inr ((times, loops), st2)
     \<and> 1 \<le> loops
     \<and> times \<noteq> [] \<and> last times = runtime / real loops
     \<and> (mintime < runtime \<longrightarrow>
          last (timings st1) = (statements, setup, loops) \<and> mintime \<le> real loops * last times)
     \<and> (\<not> mintime < runtime \<longrightarrow> length (timings st1) = length (timings st) + 32)"
proof -
  obtain loops last_probe st1 where
    p: "probe timer statements setup mintime 32 1 None st = (loops, last_probe, st1)"
    by (cases "probe timer statements setup mintime 32 1 None st")
  from probe_result [OF _ p] obtain runtime where
    loops: "1 \<le> loops" and
    rounds: "length (timings st1) \<le> length (timings st) + 32" and
    runtime: "last_probe = Some runtime" and
    converged: "mintime < runtime \<longrightarrow> last (timings st1) = (statements, setup, loops)" and
    exhausted: "\<not> mintime < runtime \<longrightarrow> length (timings st1) = length (timings st) + 32"
    by auto
  obtain fresh st2 where
    r: "timer_repeat timer statements setup (nat (numrepeat - 1)) loops st1 = (fresh, st2)"
    by (cases "timer_repeat timer statements setup (nat (numrepeat - 1)) loops st1")
  let ?times = "map (\<lambda>x. x / real loops) (fresh @ [runtime])"
  have b: "bettertimeit timer statements setup mintime numrepeat st = Inr ((?times, loops), st2)"
    using p runtime r loops by (simp add: bettertimeit_def)
  have l: "last ?times = runtime / real loops"
    by simp
  have "real loops * (runtime / real loops) = runtime"
    using loops by simp
  then have m: "mintime < runtime \<longrightarrow> mintime \<le> real loops * last ?times"
    by simp
  have ne: "?times \<noteq> []" by simp
  from p runtime rounds b loops ne l converged m exhausted show ?thesis
    by blast
qed

theorem bettertimeit_probing_witness:
  "(1 / 4 :: real) < 256 / 1000
   \<and> (\<exists>times st2.
        bettertimeit (scaling_timer (1 / 1000)) ''x = 0'' ''pass'' (1 / 4) 3 fresh_run =
          Inr ((times, 256), st2)
        \<and> 1 / 4 \<le> real 256 * last times)"
proof -
  obtain loops runtime st1 times st2 where
    p: "probe (scaling_timer (1 / 1000)) ''x = 0'' ''pass'' (1 / 4) 32 1 None fresh_run =
          (loops, Some runtime, st1)" and
    b: "bettertimeit (scaling_timer (1 / 1000)) ''x = 0'' ''pass'' (1 / 4) 3 fresh_run =
          Inr ((times, loops), st2)" and
    m: "1 / 4 < runtime \<longrightarrow> 1 / 4 \<le> real loops * last times"
    using bettertimeit_probing
      [of "scaling_timer (1 / 1000)" "''x = 0''" "''pass''" "1 / 4" fresh_run 3]
    by blast
  have "probe (scaling_timer (1 / 1000)) ''x = 0'' ''pass'' (1 / 4) 32 1 None fresh_run =
      (256, Some (256 / 1000),
       \<lparr>world = (), timings = [(''x = 0'', ''pass'', 1), (''x = 0'', ''pass'', 2),
         (''x = 0'', ''pass'', 4), (''x = 0'', ''pass'', 32), (''x = 0'', ''pass'', 256)]\<rparr>)"
    by (simp add: scaling_timer_def fresh_run_def timer_timeit_def scale_loops_def
        eval_nat_numeral)
  with p have "loops = 256" "runtime = 256 / 1000"
    by simp_all
  with b m show ?thesis by simp
qed

text \<open>
  Claim C7, as stated, at a timer whose readings differ (1, 2, 3, ... seconds): with
  \<open>mintime = 0.5\<close> and \<open>numrepeat = 3\<close> the first probe reads 1 second at one loop and
  ends the probing, the two fresh timings read 2 and 3 seconds, and the returned list is
  \<^verbatim>\<open>[2.0, 3.0, 1.0]\<close>: the probing reading is its last entry, not its first.
\<close>

theorem bettertimeit_probe_reading_not_first:
  "probe counting_timer ''x = 0'' ''pass'' (1 / 2) 32 1 None \<lparr>world = 0, timings = []\<rparr> =
     (1, Some 1, \<lparr>world = 1, timings = [(''x = 0'', ''pass'', 1)]\<rparr>)
   \<and> bettertimeit counting_timer ''x = 0'' ''pass'' (1 / 2) 3 \<lparr>world = 0, timings = []\<rparr> =
     Inr (([2, 3, 1], 1),
       \<lparr>world = 3, timings = [(''x = 0'', ''pass'', 1), (''x = 0'', ''pass'', 1),
          (''x = 0'', ''pass'', 1)]\<rparr>)
   \<and> hd [2, 3, 1 :: real] \<noteq> 1 / real (1 :: nat)"
  by (simp add: bettertimeit_def counting_timer_def timer_timeit_def eval_nat_numeral)

text \<open>
  Claim C7, amended: for every \<open>numrepeat \<ge> 1\<close>, \<^verbatim>\<open>bettertimeit\<close> returns exactly
  \<open>numrepeat\<close> times together with the final loops. The times are the readings of
  \<open>numrepeat - 1\<close> fresh timings at the final loop count, followed by the reading of the
  last probing run, each divided by the final loops: the probing reading is kept, not
  discarded, and is the last entry of the returned list, and only \<open>numrepeat - 1\<close>
  timings are made after probing.
\<close>

theorem bettertimeit_repeats:
  assumes "1 \<le> numrepeat"
  shows "\<exists>loops runtime st1 fresh st2 times.
     probe timer statements setup mintime 32 1 None st = (loops, Some runtime, st1)
     \<and> timer_repeat timer statements setup (nat (numrepeat - 1)) loops st1 = (fresh, st2)
     \<and> length fresh = nat (numrepeat - 1)
     \<and> timings st2 = timings st1 @ replicate (nat (numrepeat - 1)) (statements, setup, loops)
     \<and> times = map (\<lambda>x. x / real loops) (fresh @ [runtime])
     \<and> last times = runtime / real loops
     \<and> length times = nat numrepeat
     \<and> bettertimeit timer statements setup mintime numrepeat st = Inr ((times, loops), st2)"
proof -
  obtain loops last_probe st1 where
    p: "probe timer statements setup mintime 32 1 None st = (loops, last_probe, st1)"
    by (cases "probe timer statements setup mintime 32 1 None st")
  from probe_result [OF _ p] obtain runtime where
    loops: "1 \<le> loops" and runtime: "last_probe = Some runtime"
    by auto
  obtain fresh st2 where
    r: "timer_repeat timer statements setup (nat (numrepeat - 1)) loops st1 = (fresh, st2)"
    by (cases "timer_repeat timer statements setup (nat (numrepeat - 1)) loops st1")
  from timer_repeat_result [of timer statements "setup" "nat (numrepeat - 1)" loops st1] r
  have n: "length fresh = nat (numrepeat - 1)"
    and t: "timings st2 = timings st1 @ replicate (nat (numrepeat - 1)) (statements, setup, loops)"
    by simp_all
  let ?times = "map (\<lambda>x. x / real loops) (fresh @ [runtime])"
  have len: "length ?times = nat numrepeat"
    using n assms by simp
  have b: "bettertimeit timer statements setup mintime numrepeat st = Inr ((?times, loops), st2)"
    using p runtime r loops by (simp add: bettertimeit_def)
  have l: "last ?times = runtime / real loops"
    by simp
  from p runtime r n t l len b show ?thesis
    by blast
qed

theorem bettertimeit_repeats_witness:
  "(1 :: int) \<le> 3
   \<and> (\<exists>times loops st2.
        bettertimeit (scaling_timer (1 / 1000)) ''x = 0'' ''pass'' (1 / 4) 3 fresh_run =
          Inr ((times, loops), st2)
        \<and> length times = 3)"
proof -
  have n: "(1 :: int) \<le> 3" by simp
  from bettertimeit_repeats
    [OF n, of "scaling_timer (1 / 1000)" "''x = 0''" "''pass''" "1 / 4" fresh_run]
  show ?thesis using n by auto
qed

subsection \<open>Lemmas about the loops of \<^verbatim>\<open>runbenchmarks\<close>\<close>

lemma hook_never_False: "never_False hook \<Longrightarrow> hook_says_False hook t = False"
  by (cases hook) (auto simp: never_False_def hook_says_False_def)

lemma hook_None [simp]: "hook_says_False None t = False"
  by (simp add: hook_says_False_def)

lemma run_cell_callback_None:
  assumes "never_False cb"
  shows "run_cell (env\<lparr>env_trialcallback := cb\<rparr>) bench arena st =
         run_cell (env\<lparr>env_trialcallback := None\<rparr>) bench arena st"
  by (simp add: run_cell_def hook_never_False [OF assms] Let_def
      cong: sum.case_cong prod.case_cong if_cong)

lemma run_cell_filter_None:
  assumes "never_False flt"
  shows "run_cell (env\<lparr>env_trialfilter := flt\<rparr>) bench arena st =
         run_cell (env\<lparr>env_trialfilter := None\<rparr>) bench arena st"
  by (simp add: run_cell_def hook_never_False [OF assms] Let_def
      cong: sum.case_cong prod.case_cong if_cong)

lemma arena_loop_results:
  "arena_loop env bench arenas results st =
     (case arena_loop env bench arenas [] st of
        Inl e \<Rightarrow> Inl e
      | Inr (returned, ts, st') \<Rightarrow> Inr (returned, results @ ts, st'))"
proof (induction arenas arbitrary: results st)
  case Nil
  show ?case by simp
next
  case (Cons arena arenas)
  show ?case
  proof (cases "run_cell env bench arena st")
    case (Inl e)
    then show ?thesis by simp
  next
    case (Inr outcome)
    show ?thesis
    proof (cases outcome)
      case Skipped
      with Inr Cons.IH [of results st] show ?thesis by simp
    next
      case (Measured t st1)
      with Inr Cons.IH [of "results @ [t]" st1] Cons.IH [of "[t]" st1] show ?thesis
        by (simp split: sum.splits)
    next
      case (Cancelled t st1)
      with Inr show ?thesis by simp
    qed
  qed
qed

lemma cells_loop_arena_loop:
  "cells_loop env (map (Pair bench) arenas @ rest) st =
     (case arena_loop env bench arenas [] st of
        Inl e \<Rightarrow> Inl e
      | Inr (returned, ts, st1) \<Rightarrow>
          if returned then Inr (ts, st1)
          else (case cells_loop env rest st1 of
                  Inl e \<Rightarrow> Inl e
                | Inr (ts', st2) \<Rightarrow> Inr (ts @ ts', st2)))"
proof (induction arenas arbitrary: st)
  case Nil
  show ?case by (simp split: sum.splits)
next
  case (Cons arena arenas)
  show ?case
  proof (cases "run_cell env bench arena st")
    case (Inl e)
    then show ?thesis by simp
  next
    case (Inr outcome)
    show ?thesis
    proof (cases outcome)
      case Skipped
      with Inr Cons.IH [of st] show ?thesis by simp
    next
      case (Measured t st1)
      with Inr Cons.IH [of st1] arena_loop_results [of env bench arenas "[t]" st1]
      show ?thesis
        by (simp split: sum.splits)
    next
      case (Cancelled t st1)
      with Inr show ?thesis by simp
    qed
  qed
qed

lemma bench_loop_cells:
  "bench_loop env benches arenalist results st =
     (case cells_loop env (List.product benches arenalist) st of
        Inl e \<Rightarrow> Inl e
      | Inr (ts, st') \<Rightarrow> Inr (results @ ts, st'))"
proof (induction benches arbitrary: results st)
  case Nil
  show ?case by simp
next
  case (Cons bench benches)
  show ?case
    using arena_loop_results [of env bench arenalist results st]
      cells_loop_arena_loop [of env bench arenalist "List.product benches arenalist" st]
      Cons.IH
    by (simp split: sum.splits)
qed


lemma probe_timings:
  assumes "probe timer statements setup mintime rounds loops runtime st = (loops', runtime', st')"
  shows "\<exists>new. timings st' = timings st @ new
           \<and> (\<forall>e\<in>set new. fst e = statements \<and> fst (snd e) = setup)"
  using assms
proof (induction rounds arbitrary: loops runtime st)
  case 0
  then show ?case by simp
next
  case (Suc rounds)
  obtain elapsed st1 where t: "timer_timeit timer statements setup loops st = (elapsed, st1)"
    by (cases "timer_timeit timer statements setup loops st")
  have st1: "timings st1 = timings st @ [(statements, setup, loops)]"
    using timer_timeit_timings [of timer statements "setup" loops st] t by simp
  show ?case
  proof (cases "mintime < elapsed")
    case True
    with Suc.prems t have "st' = st1" by simp
    with st1 show ?thesis by simp
  next
    case False
    with Suc.prems t have "probe timer statements setup mintime rounds
        (scale_loops mintime elapsed loops) (Some elapsed) st1 = (loops', runtime', st')"
      by simp
    from Suc.IH [OF this] obtain new where
      "timings st' = timings st1 @ new"
      "\<forall>e\<in>set new. fst e = statements \<and> fst (snd e) = setup"
      by blast
    with st1 have "timings st' = timings st @ ((statements, setup, loops) # new)
        \<and> (\<forall>e\<in>set ((statements, setup, loops) # new). fst e = statements \<and> fst (snd e) = setup)"
      by simp
    then show ?thesis by blast
  qed
qed

lemma bettertimeit_timings:
  assumes "bettertimeit timer statements setup mintime numrepeat st = Inr (r, st2)"
  shows "\<exists>new. timings st2 = timings st @ new
           \<and> (\<forall>e\<in>set new. fst e = statements \<and> fst (snd e) = setup)"
proof -
  obtain loops last_probe st1 where
    p: "probe timer statements setup mintime 32 1 None st = (loops, last_probe, st1)"
    by (cases "probe timer statements setup mintime 32 1 None st")
  from probe_timings [OF p] obtain new1 where
    n1: "timings st1 = timings st @ new1"
        "\<forall>e\<in>set new1. fst e = statements \<and> fst (snd e) = setup"
    by blast
  obtain fresh st2' where
    rp: "timer_repeat timer statements setup (nat (numrepeat - 1)) loops st1 = (fresh, st2')"
    by (cases "timer_repeat timer statements setup (nat (numrepeat - 1)) loops st1")
  from timer_repeat_result [of timer statements "setup" "nat (numrepeat - 1)" loops st1] rp
  have n2: "timings st2' = timings st1 @ replicate (nat (numrepeat - 1)) (statements, setup, loops)"
    by simp
  from assms p rp have "st2 = st2'"
    by (simp add: bettertimeit_def split: option.splits if_splits)
  with n1 n2 have "timings st2 = timings st @ (new1 @ replicate (nat (numrepeat - 1)) (statements, setup, loops))
      \<and> (\<forall>e\<in>set (new1 @ replicate (nat (numrepeat - 1)) (statements, setup, loops)).
            fst e = statements \<and> fst (snd e) = setup)"
    by auto
  then show ?thesis by blast
qed

lemma make_trial_unmeasured:
  assumes "make_trial name arenaindices benchindices bench arena = Inr t"
  shows "unmeasured t = t"
  using assms
  by (auto simp: make_trial_def unmeasured_def Let_def split: prod.splits sum.splits)

lemma run_cell_measured:
  assumes "run_cell env bench arena st = Inr (Measured t st1)
         \<or> run_cell env bench arena st = Inr (Cancelled t st1)"
  shows "make_trial (env_name env) (env_arenaindices env) (env_benchindices env) bench arena =
           Inr (unmeasured t)"
    and "\<not> hook_says_False (env_trialfilter env) (unmeasured t)"
    and "\<exists>new. timings st1 = timings st @ new \<and> (\<forall>e\<in>set new. timing_of t e)"
    and "run_cell env bench arena st = Inr (Cancelled t st1) \<longleftrightarrow>
           hook_says_False (env_trialcallback env) t"
proof -
  obtain p where mk: "make_trial (env_name env) (env_arenaindices env) (env_benchindices env)
      bench arena = Inr p"
    using assms by (auto simp: run_cell_def split: sum.splits)
  have keep: "\<not> hook_says_False (env_trialfilter env) p"
    using assms mk by (auto simp: run_cell_def split: if_splits)
  obtain times' loops st1' where bt: "bettertimeit (env_timer env) (trial_benchstring p)
      (trial_setupstring p) (env_mintime env) (env_numrepeat env) st = Inr ((times', loops), st1')"
    using assms mk keep by (auto simp: run_cell_def split: sum.splits)
  obtain least where least: "py_min times' = Inr least"
    using assms mk keep bt by (auto simp: run_cell_def split: sum.splits)
  let ?t = "p\<lparr>trial_loops := Some loops, trial_mintime := Some least, trial_times := Some times'\<rparr>"
  have rc: "run_cell env bench arena st =
      (if hook_says_False (env_trialcallback env) ?t then Inr (Cancelled ?t st1')
       else Inr (Measured ?t st1'))"
    using mk keep bt least by (simp add: run_cell_def)
  from assms rc have t: "t = ?t" and st1: "st1 = st1'"
    by (auto split: if_splits)
  have un: "unmeasured t = p"
    using make_trial_unmeasured [OF mk] t by (simp add: unmeasured_def)
  show "make_trial (env_name env) (env_arenaindices env) (env_benchindices env) bench arena =
           Inr (unmeasured t)"
    using mk un by simp
  show "\<not> hook_says_False (env_trialfilter env) (unmeasured t)"
    using keep un by simp
  show "\<exists>new. timings st1 = timings st @ new \<and> (\<forall>e\<in>set new. timing_of t e)"
    using bettertimeit_timings [OF bt] t st1 by (simp add: timing_of_def)
  show "run_cell env bench arena st = Inr (Cancelled t st1) \<longleftrightarrow>
           hook_says_False (env_trialcallback env) t"
    using rc t st1 by simp
qed

lemma run_cell_skipped:
  assumes "run_cell env bench arena st = Inr Skipped"
  shows "\<exists>p. make_trial (env_name env) (env_arenaindices env) (env_benchindices env) bench arena
            = Inr p \<and> hook_says_False (env_trialfilter env) p"
  using assms
  by (auto simp: run_cell_def Let_def split: sum.splits if_splits prod.splits)


lemma cells_loop_timings:
  assumes "cells_loop env cells st = Inr (ts, st')"
  shows "\<exists>new. timings st' = timings st @ new \<and> (\<forall>e\<in>set new. \<exists>t\<in>set ts. timing_of t e)"
  using assms
proof (induction cells arbitrary: st ts)
  case Nil
  then show ?case by simp
next
  case (Cons cell cells)
  obtain bench arena where cell: "cell = (bench, arena)" by (cases cell)
  show ?case
  proof (cases "run_cell env bench arena st")
    case (Inl e)
    with Cons.prems cell show ?thesis by simp
  next
    case (Inr outcome)
    show ?thesis
    proof (cases outcome)
      case Skipped
      with Inr Cons.prems cell have "cells_loop env cells st = Inr (ts, st')" by simp
      from Cons.IH [OF this] show ?thesis .
    next
      case (Measured t st1)
      with Inr Cons.prems cell obtain ts1 where
        rest: "cells_loop env cells st1 = Inr (ts1, st')" and ts: "ts = t # ts1"
        by (auto split: sum.splits)
      from run_cell_measured(3) [of env bench arena st t st1] Inr Measured obtain new1 where
        n1: "timings st1 = timings st @ new1" "\<forall>e\<in>set new1. timing_of t e"
        by auto
      from Cons.IH [OF rest] obtain new2 where
        n2: "timings st' = timings st1 @ new2" "\<forall>e\<in>set new2. \<exists>u\<in>set ts1. timing_of u e"
        by blast
      from n1 n2 ts have "timings st' = timings st @ (new1 @ new2)
          \<and> (\<forall>e\<in>set (new1 @ new2). \<exists>u\<in>set ts. timing_of u e)"
        by auto
      then show ?thesis by blast
    next
      case (Cancelled t st1)
      with Inr Cons.prems cell have ts: "ts = [t]" and st': "st' = st1" by simp_all
      from run_cell_measured(3) [of env bench arena st t st1] Inr Cancelled ts st'
      show ?thesis by auto
    qed
  qed
qed

lemma cells_loop_filter:
  assumes "cells_loop env cells st = Inr (ts, st')"
    and "never_False (env_trialcallback env)"
  shows "\<exists>pre. all_trials (env_name env) (env_arenaindices env) (env_benchindices env) cells
            = Inr pre
         \<and> map unmeasured ts =
             filter (\<lambda>p. \<not> hook_says_False (env_trialfilter env) p) pre"
  using assms(1)
proof (induction cells arbitrary: st ts)
  case Nil
  then show ?case by simp
next
  case (Cons cell cells)
  obtain bench arena where cell: "cell = (bench, arena)" by (cases cell)
  show ?case
  proof (cases "run_cell env bench arena st")
    case (Inl e)
    with Cons.prems cell show ?thesis by simp
  next
    case (Inr outcome)
    show ?thesis
    proof (cases outcome)
      case Skipped
      with Inr Cons.prems cell have "cells_loop env cells st = Inr (ts, st')" by simp
      from Cons.IH [OF this] obtain pre where
        pre: "all_trials (env_name env) (env_arenaindices env) (env_benchindices env) cells
            = Inr pre"
          "map unmeasured ts = filter (\<lambda>p. \<not> hook_says_False (env_trialfilter env) p) pre"
        by blast
      from run_cell_skipped [of env bench arena st] Inr Skipped obtain p where
        p: "make_trial (env_name env) (env_arenaindices env) (env_benchindices env) bench arena
            = Inr p" "hook_says_False (env_trialfilter env) p"
        by auto
      from pre p cell have
        "all_trials (env_name env) (env_arenaindices env) (env_benchindices env) (cell # cells)
            = Inr (p # pre)
         \<and> map unmeasured ts =
             filter (\<lambda>p. \<not> hook_says_False (env_trialfilter env) p) (p # pre)"
        by simp
      then show ?thesis by blast
    next
      case (Measured t st1)
      with Inr Cons.prems cell obtain ts1 where
        rest: "cells_loop env cells st1 = Inr (ts1, st')" and ts: "ts = t # ts1"
        by (auto split: sum.splits)
      from Cons.IH [OF rest] obtain pre where
        pre: "all_trials (env_name env) (env_arenaindices env) (env_benchindices env) cells
            = Inr pre"
          "map unmeasured ts1 = filter (\<lambda>p. \<not> hook_says_False (env_trialfilter env) p) pre"
        by blast
      from run_cell_measured(1,2) [of env bench arena st t st1] Inr Measured have
        p: "make_trial (env_name env) (env_arenaindices env) (env_benchindices env) bench arena
            = Inr (unmeasured t)" "\<not> hook_says_False (env_trialfilter env) (unmeasured t)"
        by auto
      from pre p cell ts have
        "all_trials (env_name env) (env_arenaindices env) (env_benchindices env) (cell # cells)
            = Inr (unmeasured t # pre)
         \<and> map unmeasured ts =
             filter (\<lambda>p. \<not> hook_says_False (env_trialfilter env) p) (unmeasured t # pre)"
        by simp
      then show ?thesis by blast
    next
      case (Cancelled t st1)
      from run_cell_measured(4) [of env bench arena st t st1] Inr Cancelled
      have "hook_says_False (env_trialcallback env) t" by simp
      with hook_never_False [OF assms(2)] show ?thesis by simp
    qed
  qed
qed

lemma run_cell_callback_Some:
  "run_cell (env\<lparr>env_trialcallback := Some cb\<rparr>) bench arena st =
     (case run_cell (env\<lparr>env_trialcallback := None\<rparr>) bench arena st of
        Inl e \<Rightarrow> Inl e
      | Inr Skipped \<Rightarrow> Inr Skipped
      | Inr (Measured t st1) \<Rightarrow>
          if is_False (cb t) then Inr (Cancelled t st1) else Inr (Measured t st1)
      | Inr (Cancelled t st1) \<Rightarrow> Inr (Cancelled t st1))"
  by (simp add: run_cell_def hook_says_False_def Let_def split: sum.splits prod.splits)

lemma run_cell_not_cancelled:
  "run_cell (env\<lparr>env_trialcallback := None\<rparr>) bench arena st \<noteq> Inr (Cancelled t st1)"
  using run_cell_measured(4) [of "env\<lparr>env_trialcallback := None\<rparr>" bench arena st t st1]
  by auto

lemma cells_loop_cancel:
  assumes "cells_loop (env\<lparr>env_trialcallback := None\<rparr>) cells st = Inr (all, st_all)"
    and "1 \<le> k" and "k \<le> length all"
    and "is_False (cb (all ! (k - 1)))"
    and "\<forall>i<k - 1. \<not> is_False (cb (all ! i))"
  shows "\<exists>st_k. cells_loop (env\<lparr>env_trialcallback := Some cb\<rparr>) cells st = Inr (take k all, st_k)
           \<and> prefix (timings st_k) (timings st_all)"
  using assms
proof (induction cells arbitrary: st all k)
  case Nil
  then show ?case by simp
next
  case (Cons cell cells)
  let ?envN = "env\<lparr>env_trialcallback := None\<rparr>"
  let ?envC = "env\<lparr>env_trialcallback := Some cb\<rparr>"
  obtain bench arena where cell: "cell = (bench, arena)" by (cases cell)
  show ?case
  proof (cases "run_cell ?envN bench arena st")
    case (Inl e)
    with Cons.prems(1) cell show ?thesis by simp
  next
    case (Inr outcome)
    show ?thesis
    proof (cases outcome)
      case Skipped
      with Inr Cons.prems(1) cell have "cells_loop ?envN cells st = Inr (all, st_all)" by simp
      from Cons.IH [OF this Cons.prems(2-5)] obtain st_k where
        "cells_loop ?envC cells st = Inr (take k all, st_k)"
        "prefix (timings st_k) (timings st_all)"
        by blast
      moreover have "run_cell ?envC bench arena st = Inr Skipped"
        using Inr Skipped by (simp add: run_cell_callback_Some)
      ultimately show ?thesis using cell by simp
    next
      case (Measured t st1)
      with Inr Cons.prems(1) cell obtain ts1 where
        rest: "cells_loop ?envN cells st1 = Inr (ts1, st_all)" and all: "all = t # ts1"
        by (auto split: sum.splits)
      have rc: "run_cell ?envC bench arena st =
          (if is_False (cb t) then Inr (Cancelled t st1) else Inr (Measured t st1))"
        using Inr Measured by (simp add: run_cell_callback_Some)
      show ?thesis
      proof (cases "is_False (cb t)")
        case True
        have "k = 1"
        proof (rule ccontr)
          assume "k \<noteq> 1"
          with Cons.prems(2) have "0 < k - 1" by simp
          with Cons.prems(5) have "\<not> is_False (cb (all ! 0))" by blast
          with all True show False by simp
        qed
        moreover from cells_loop_timings [OF rest] have "prefix (timings st1) (timings st_all)"
          by (auto simp: prefix_def)
        ultimately show ?thesis using rc True cell all by simp
      next
        case False
        with Cons.prems(4) all have k2: "2 \<le> k"
          using Cons.prems(2) by (cases "k = 1") auto
        then obtain j where j: "k = Suc j" "1 \<le> j" by (cases k) auto
        have a: "j \<le> length ts1" using Cons.prems(3) all j by simp
        have b: "is_False (cb (ts1 ! (j - 1)))"
          using Cons.prems(4) all j by (cases j) simp_all
        have c: "\<forall>i<j - 1. \<not> is_False (cb (ts1 ! i))"
        proof (intro allI impI)
          fix i assume "i < j - 1"
          then have "Suc i < k - 1" using j by simp
          with Cons.prems(5) have "\<not> is_False (cb (all ! Suc i))" by blast
          with all show "\<not> is_False (cb (ts1 ! i))" by simp
        qed
        from Cons.IH [OF rest j(2) a b c] obtain st_k where
          "cells_loop ?envC cells st1 = Inr (take j ts1, st_k)"
          "prefix (timings st_k) (timings st_all)"
          by blast
        then show ?thesis using rc False cell all j by simp
      qed
    next
      case (Cancelled t st1)
      with Inr run_cell_not_cancelled [of env bench arena st t st1] show ?thesis by simp
    qed
  qed
qed

subsection \<open>Theorems about \<^verbatim>\<open>runbenchmarks\<close>\<close>

lemma sum_case_append_Nil:
  "(case x of Inl e \<Rightarrow> Inl e | Inr (ts, st') \<Rightarrow> Inr ([] @ ts, st')) = x"
  by (cases x) auto

lemma runbenchmarks_cells:
  "runbenchmarks sn name arenadict benchdict verbose cython mintime numrepeat timer
      trialfilter trialcallback st =
   cells_loop
     \<lparr>env_name = name, env_arenaindices = file_indices arenadict,
      env_benchindices = file_indices benchdict, env_mintime = mintime,
      env_numrepeat = numrepeat, env_timer = timer, env_trialfilter = trialfilter,
      env_trialcallback =
        (case trialcallback of
           None \<Rightarrow> if verbose then Some ProgressPrinter else None
         | Some f \<Rightarrow> Some f)\<rparr>
     (List.product (getbenchlist sn benchdict) (getarenalist sn name arenadict cython)) st"
  unfolding runbenchmarks_def Let_def bench_loop_cells sum_case_append_Nil ..

lemma cells_loop_cong:
  assumes "\<And>bench arena st. run_cell env1 bench arena st = run_cell env2 bench arena st"
  shows "cells_loop env1 cells st = cells_loop env2 cells st"
proof (induction cells arbitrary: st)
  case Nil
  show ?case by simp
next
  case (Cons cell cells)
  obtain bench arena where cell: "cell = (bench, arena)" by (cases cell)
  show ?case
    using assms [of bench arena st] Cons.IH cell
    by (simp split: sum.splits cell_outcome.splits)
qed

lemma never_False_effective:
  "never_False cb \<Longrightarrow>
     never_False (case cb of None \<Rightarrow> if verbose then Some ProgressPrinter else None
                  | Some f \<Rightarrow> Some f)"
  by (cases cb) (simp_all add: never_False_def ProgressPrinter_def is_False_def)

lemma py_min_returns: "xs \<noteq> [] \<Longrightarrow> \<exists>least. py_min xs = Inr least"
  by (cases xs) (simp_all add: py_min_def)

lemma bettertimeit_returns:
  "\<exists>times' loops st2. bettertimeit timer statements setup mintime numrepeat st =
      Inr ((times', loops), st2) \<and> times' \<noteq> [] \<and> 1 \<le> loops"
proof -
  obtain loops last_probe st1 where
    p: "probe timer statements setup mintime 32 1 None st = (loops, last_probe, st1)"
    by (cases "probe timer statements setup mintime 32 1 None st")
  from probe_result [OF _ p] obtain runtime where
    loops: "1 \<le> loops" and runtime: "last_probe = Some runtime"
    by auto
  obtain fresh st2 where
    r: "timer_repeat timer statements setup (nat (numrepeat - 1)) loops st1 = (fresh, st2)"
    by (cases "timer_repeat timer statements setup (nat (numrepeat - 1)) loops st1")
  have "bettertimeit timer statements setup mintime numrepeat st =
      Inr ((map (\<lambda>x. x / real loops) (fresh @ [runtime]), loops), st2)"
    using p runtime r loops by (simp add: bettertimeit_def)
  with loops show ?thesis by simp
qed

lemma run_cell_returns:
  assumes "make_trial (env_name env) (env_arenaindices env) (env_benchindices env) bench arena
      = Inr p"
  shows "\<exists>outcome. run_cell env bench arena st = Inr outcome"
proof (cases "hook_says_False (env_trialfilter env) p")
  case True
  with assms show ?thesis by (simp add: run_cell_def)
next
  case False
  obtain times' loops st2 where
    b: "bettertimeit (env_timer env) (trial_benchstring p) (trial_setupstring p)
          (env_mintime env) (env_numrepeat env) st = Inr ((times', loops), st2)"
    and ne: "times' \<noteq> []"
    using bettertimeit_returns by blast
  from py_min_returns [OF ne] obtain least where "py_min times' = Inr least" ..
  with assms False b show ?thesis by (simp add: run_cell_def Let_def)
qed

lemma cells_loop_returns:
  assumes "all_trials (env_name env) (env_arenaindices env) (env_benchindices env) cells
      = Inr pre"
  shows "\<exists>ts st'. cells_loop env cells st = Inr (ts, st')"
  using assms
proof (induction cells arbitrary: st pre)
  case Nil
  show ?case by simp
next
  case (Cons cell cells)
  obtain bench arena where cell: "cell = (bench, arena)" by (cases cell)
  from Cons.prems cell obtain p pre1 where
    p: "make_trial (env_name env) (env_arenaindices env) (env_benchindices env) bench arena
      = Inr p" and
    pre1: "all_trials (env_name env) (env_arenaindices env) (env_benchindices env) cells
      = Inr pre1"
    by (auto split: sum.splits)
  from run_cell_returns [OF p] obtain outcome where
    rc: "run_cell env bench arena st = Inr outcome" ..
  show ?case
  proof (cases outcome)
    case Skipped
    with rc cell Cons.IH [OF pre1, of st] show ?thesis by simp
  next
    case (Measured t st1)
    from Cons.IH [OF pre1, of st1] obtain ts st' where
      "cells_loop env cells st1 = Inr (ts, st')" by blast
    with rc cell Measured show ?thesis by simp
  next
    case (Cancelled t st1)
    with rc cell show ?thesis by simp
  qed
qed

lemma runbenchmarks_returns:
  assumes "matrix_trials sn name arenadict benchdict cython = Inr pre"
  shows "\<exists>results st'. runbenchmarks sn name arenadict benchdict verbose cython mintime
      numrepeat timer trialfilter trialcallback st = Inr (results, st')"
proof -
  let ?env = "\<lparr>env_name = name, env_arenaindices = file_indices arenadict,
      env_benchindices = file_indices benchdict, env_mintime = mintime,
      env_numrepeat = numrepeat, env_timer = timer, env_trialfilter = trialfilter,
      env_trialcallback =
        (case trialcallback of
           None \<Rightarrow> if verbose then Some ProgressPrinter else None
         | Some f \<Rightarrow> Some f)\<rparr>"
  have "all_trials (env_name ?env) (env_arenaindices ?env) (env_benchindices ?env)
      (List.product (getbenchlist sn benchdict) (getarenalist sn name arenadict cython)) = Inr pre"
    using assms by (simp add: matrix_trials_def)
  from cells_loop_returns [OF this] show ?thesis
    unfolding runbenchmarks_cells .
qed

lemma runbenchmarks_results:
  assumes "runbenchmarks sn name arenadict benchdict verbose cython mintime numrepeat timer
      trialfilter trialcallback st = Inr (results, st')"
    and "never_False trialcallback"
  shows "\<exists>pre. matrix_trials sn name arenadict benchdict cython = Inr pre
           \<and> map unmeasured results = filter (\<lambda>p. \<not> hook_says_False trialfilter p) pre"
  using cells_loop_filter [OF assms(1) [unfolded runbenchmarks_cells]]
    never_False_effective [OF assms(2), of verbose]
  by (simp add: matrix_trials_def)

lemma runbenchmarks_timings:
  assumes "runbenchmarks sn name arenadict benchdict verbose cython mintime numrepeat timer
      trialfilter trialcallback st = Inr (results, st')"
  shows "\<exists>new. timings st' = timings st @ new
           \<and> (\<forall>e\<in>set new. \<exists>t\<in>set results. timing_of t e)"
  using cells_loop_timings [OF assms [unfolded runbenchmarks_cells]] .


lemma example_matrix_trials:
  "matrix_trials example_snippets ''zeros'' example_arenadict example_benchdict False =
  Inr (map (\<lambda>(bn, bi, an, ai, sfx).
        \<lparr>trial_arenafile = ''arena_zeros.py'', trial_arenaindex = ai, trial_arenaname = an,
         trial_arenaprefix = [], trial_arenasuffix = sfx, trial_benchfile = ''bench_zeros.py'',
         trial_benchindex = bi, trial_benchname = bn, trial_benchstring = ''body of '' @ bn,
         trial_loops = None, trial_mintime = None,
         trial_setupstring = ''import bench_zeros.py; load '' @ an @ ''; '',
         trial_times = None\<rparr>)
     [(''bench_n2'', 0, ''zeros_imul'', 0, ''_imul''), (''bench_n2'', 0, ''zeros_mul'', 1, ''_mul''),
      (''bench_n2'', 0, ''zeros_slow'', 2, ''_slow''), (''bench_n10'', 1, ''zeros_imul'', 0, ''_imul''),
      (''bench_n10'', 1, ''zeros_mul'', 1, ''_mul''), (''bench_n10'', 1, ''zeros_slow'', 2, ''_slow'')])"
proof -
  have arenas: "getarenalist example_snippets ''zeros'' example_arenadict False =
      [(''arena_zeros.py'', ''zeros_imul'', ''load zeros_imul; ''),
       (''arena_zeros.py'', ''zeros_mul'', ''load zeros_mul; ''),
       (''arena_zeros.py'', ''zeros_slow'', ''load zeros_slow; '')]"
    by code_simp
  have benches: "getbenchlist example_snippets example_benchdict =
      [(''bench_zeros.py'', ''bench_n2'', ''import bench_zeros.py; '', ''body of bench_n2''),
       (''bench_zeros.py'', ''bench_n10'', ''import bench_zeros.py; '', ''body of bench_n10'')]"
    by code_simp
  have ai: "file_indices example_arenadict =
      [(''arena_zeros.py'', [(''zeros_imul'', 0), (''zeros_mul'', 1), (''zeros_slow'', 2)])]"
    by code_simp
  have bi: "file_indices example_benchdict =
      [(''bench_zeros.py'', [(''bench_n2'', 0), (''bench_n10'', 1)])]"
    by code_simp
  show ?thesis
    by (simp add: matrix_trials_def arenas benches ai bi make_trial_def getitem_def
        split_name_def)
qed








text \<open>
  Claim C5: a run with a \<^verbatim>\<open>trialcallback\<close>. Let \<open>all\<close> be the trials that the run
  completes when nothing cancels it. If the callback returns \<^verbatim>\<open>False\<close> on the \<open>k\<close>-th
  of them and on none before, the run with the callback returns normally, its result is
  exactly the first \<open>k\<close> trials, the timings it made are an initial part of the timings
  of the full run, and every one of them was made for one of these \<open>k\<close> trials: none
  for a remaining cell.
\<close>

theorem runbenchmarks_cancel:
  assumes "runbenchmarks sn name arenadict benchdict False cython mintime numrepeat timer
      trialfilter None st = Inr (all, st_all)"
    and "1 \<le> k" and "k \<le> length all"
    and "cb (all ! (k - 1)) = PyBool False"
    and "\<forall>i<k - 1. cb (all ! i) \<noteq> PyBool False"
  shows "\<exists>st_k new.
      runbenchmarks sn name arenadict benchdict verbose cython mintime numrepeat timer
        trialfilter (Some cb) st = Inr (take k all, st_k)
      \<and> length (take k all) = k
      \<and> prefix (timings st_k) (timings st_all)
      \<and> timings st_k = timings st @ new
      \<and> (\<forall>e\<in>set new. \<exists>t\<in>set (take k all). timing_of t e)"
proof -
  define env :: "'a bench_env" where "env =
     \<lparr>env_name = name, env_arenaindices = file_indices arenadict,
      env_benchindices = file_indices benchdict, env_mintime = mintime,
      env_numrepeat = numrepeat, env_timer = timer, env_trialfilter = trialfilter,
      env_trialcallback = None\<rparr>"
  let ?cells = "List.product (getbenchlist sn benchdict) (getarenalist sn name arenadict cython)"
  have full: "cells_loop (env\<lparr>env_trialcallback := None\<rparr>) ?cells st = Inr (all, st_all)"
    using assms(1) unfolding runbenchmarks_cells by (simp add: env_def)
  have a: "is_False (cb (all ! (k - 1)))"
    using assms(4) by (simp add: is_False_def)
  have b: "\<forall>i<k - 1. \<not> is_False (cb (all ! i))"
    using assms(5) by (simp add: is_False_def)
  from cells_loop_cancel [OF full assms(2,3) a b] obtain st_k where
    "cells_loop (env\<lparr>env_trialcallback := Some cb\<rparr>) ?cells st = Inr (take k all, st_k)"
    and pre: "prefix (timings st_k) (timings st_all)"
    by blast
  then have run: "runbenchmarks sn name arenadict benchdict verbose cython mintime numrepeat
      timer trialfilter (Some cb) st = Inr (take k all, st_k)"
    unfolding runbenchmarks_cells by (simp add: env_def)
  from runbenchmarks_timings [OF run] obtain new where
    "timings st_k = timings st @ new" "\<forall>e\<in>set new. \<exists>t\<in>set (take k all). timing_of t e"
    by blast
  with run pre assms(3) show ?thesis by auto
qed


theorem runbenchmarks_cancel_witness:
  "\<exists>all st_all st_k.
     runbenchmarks example_snippets ''zeros'' example_arenadict example_benchdict False False
       (1 / 4) 3 (scaling_timer (1 / 1000)) None None fresh_run = Inr (all, st_all)
     \<and> length all = 6
     \<and> runbenchmarks example_snippets ''zeros'' example_arenadict example_benchdict False False
         (1 / 4) 3 (scaling_timer (1 / 1000)) None
         (Some (\<lambda>t. PyBool (\<not> (trial_benchindex t = 0 \<and> trial_arenaindex t = 1)))) fresh_run =
         Inr (take 2 all, st_k)
     \<and> length (take 2 all) = 2
     \<and> prefix (timings st_k) (timings st_all)"
proof -
  let ?cb = "\<lambda>t. PyBool (\<not> (trial_benchindex t = 0 \<and> trial_arenaindex t = 1))"
  from runbenchmarks_returns [OF example_matrix_trials] obtain all st_all where
    run: "runbenchmarks example_snippets ''zeros'' example_arenadict example_benchdict False False
       (1 / 4) 3 (scaling_timer (1 / 1000)) None None fresh_run = Inr (all, st_all)"
    by blast
  have "never_False None" by (simp add: never_False_def)
  from runbenchmarks_results [OF run this] have un: "map unmeasured all =
      map (\<lambda>(bn, bi, an, ai, sfx).
        \<lparr>trial_arenafile = ''arena_zeros.py'', trial_arenaindex = ai, trial_arenaname = an,
         trial_arenaprefix = [], trial_arenasuffix = sfx, trial_benchfile = ''bench_zeros.py'',
         trial_benchindex = bi, trial_benchname = bn, trial_benchstring = ''body of '' @ bn,
         trial_loops = None, trial_mintime = None,
         trial_setupstring = ''import bench_zeros.py; load '' @ an @ ''; '',
         trial_times = None\<rparr>)
     [(''bench_n2'', 0, ''zeros_imul'', 0, ''_imul''), (''bench_n2'', 0, ''zeros_mul'', 1, ''_mul''),
      (''bench_n2'', 0, ''zeros_slow'', 2, ''_slow''), (''bench_n10'', 1, ''zeros_imul'', 0, ''_imul''),
      (''bench_n10'', 1, ''zeros_mul'', 1, ''_mul''), (''bench_n10'', 1, ''zeros_slow'', 2, ''_slow'')]"
    by (simp add: example_matrix_trials)
  then have "length (map unmeasured all) = 6" by simp
  then have len: "length all = 6" by simp
  have idx: "trial_benchindex (all ! i) = trial_benchindex (map unmeasured all ! i)
      \<and> trial_arenaindex (all ! i) = trial_arenaindex (map unmeasured all ! i)" if "i < 6" for i
    using that len by (simp add: unmeasured_def)
  have second: "?cb (all ! (2 - 1)) = PyBool False"
    using idx [of 1] by (simp add: un)
  have first: "\<forall>i<2 - 1. ?cb (all ! i) \<noteq> PyBool False"
    using idx [of 0] by (simp add: un)
  have k: "(1 :: nat) \<le> 2" "2 \<le> length all" using len by simp_all
  from runbenchmarks_cancel [OF run k second first, of False] obtain st_k where
    "runbenchmarks example_snippets ''zeros'' example_arenadict example_benchdict False False
         (1 / 4) 3 (scaling_timer (1 / 1000)) None (Some ?cb) fresh_run = Inr (take 2 all, st_k)"
    "length (take 2 all) = 2"
    "prefix (timings st_k) (timings st_all)"
    by blast
  with run len show ?thesis by blast
qed



text \<open>
  Claim C10: only the object \<^verbatim>\<open>False\<close> has an effect. A \<^verbatim>\<open>trialfilter\<close> that never
  returns \<^verbatim>\<open>False\<close> (whatever else it returns: \<^verbatim>\<open>None\<close>, \<open>0\<close>, an empty list)
  gives the same run as no filter, and a \<^verbatim>\<open>trialcallback\<close> that never returns
  \<^verbatim>\<open>False\<close> gives the same run as no callback.
\<close>

theorem runbenchmarks_only_False:
  "((\<forall>f. trialfilter = Some f \<longrightarrow> (\<forall>t. f t \<noteq> PyBool False)) \<longrightarrow>
      runbenchmarks sn name arenadict benchdict verbose cython mintime numrepeat timer
        trialfilter trialcallback st =
      runbenchmarks sn name arenadict benchdict verbose cython mintime numrepeat timer
        None trialcallback st)
   \<and> ((\<forall>f. trialcallback = Some f \<longrightarrow> (\<forall>t. f t \<noteq> PyBool False)) \<longrightarrow>
      runbenchmarks sn name arenadict benchdict verbose cython mintime numrepeat timer
        trialfilter trialcallback st =
      runbenchmarks sn name arenadict benchdict False cython mintime numrepeat timer
        trialfilter None st)"
proof (intro conjI impI)
  assume "\<forall>f. trialfilter = Some f \<longrightarrow> (\<forall>t. f t \<noteq> PyBool False)"
  then have flt: "never_False trialfilter"
    by (cases trialfilter) (simp_all add: never_False_def is_False_def)
  define env :: "'a bench_env" where "env =
     \<lparr>env_name = name, env_arenaindices = file_indices arenadict,
      env_benchindices = file_indices benchdict, env_mintime = mintime,
      env_numrepeat = numrepeat, env_timer = timer, env_trialfilter = None,
      env_trialcallback =
        (case trialcallback of
           None \<Rightarrow> if verbose then Some ProgressPrinter else None
         | Some f \<Rightarrow> Some f)\<rparr>"
  have "cells_loop (env\<lparr>env_trialfilter := trialfilter\<rparr>) cells st =
      cells_loop (env\<lparr>env_trialfilter := None\<rparr>) cells st" for cells
    by (rule cells_loop_cong) (rule run_cell_filter_None [OF flt])
  then show "runbenchmarks sn name arenadict benchdict verbose cython mintime numrepeat timer
        trialfilter trialcallback st =
      runbenchmarks sn name arenadict benchdict verbose cython mintime numrepeat timer
        None trialcallback st"
    unfolding runbenchmarks_cells by (simp add: env_def)
next
  assume "\<forall>f. trialcallback = Some f \<longrightarrow> (\<forall>t. f t \<noteq> PyBool False)"
  then have "never_False trialcallback"
    by (cases trialcallback) (simp_all add: never_False_def is_False_def)
  then have cb: "never_False (case trialcallback of
      None \<Rightarrow> if verbose then Some ProgressPrinter else None | Some f \<Rightarrow> Some f)"
    by (rule never_False_effective)
  define env :: "'a bench_env" where "env =
     \<lparr>env_name = name, env_arenaindices = file_indices arenadict,
      env_benchindices = file_indices benchdict, env_mintime = mintime,
      env_numrepeat = numrepeat, env_timer = timer, env_trialfilter = trialfilter,
      env_trialcallback = None\<rparr>"
  have "cells_loop (env\<lparr>env_trialcallback := cb'\<rparr>) cells st =
      cells_loop (env\<lparr>env_trialcallback := None\<rparr>) cells st" if "never_False cb'" for cb' cells
    by (rule cells_loop_cong) (rule run_cell_callback_None [OF that])
  from this [OF cb]
  show "runbenchmarks sn name arenadict benchdict verbose cython mintime numrepeat timer
        trialfilter trialcallback st =
      runbenchmarks sn name arenadict benchdict False cython mintime numrepeat timer
        trialfilter None st"
    unfolding runbenchmarks_cells by (simp add: env_def)
qed

theorem runbenchmarks_only_False_witness:
  "runbenchmarks example_snippets ''zeros'' example_arenadict example_benchdict False False
     (1 / 4) 3 (scaling_timer (1 / 1000)) (Some (\<lambda>t. PyInt 0)) (Some (\<lambda>t. PyNone)) fresh_run =
   runbenchmarks example_snippets ''zeros'' example_arenadict example_benchdict False False
     (1 / 4) 3 (scaling_timer (1 / 1000)) None None fresh_run"
proof -
  have "runbenchmarks example_snippets ''zeros'' example_arenadict example_benchdict False False
     (1 / 4) 3 (scaling_timer (1 / 1000)) (Some (\<lambda>t. PyInt 0)) (Some (\<lambda>t. PyNone)) fresh_run =
   runbenchmarks example_snippets ''zeros'' example_arenadict example_benchdict False False
     (1 / 4) 3 (scaling_timer (1 / 1000)) None (Some (\<lambda>t. PyNone)) fresh_run"
    using runbenchmarks_only_False [of "Some (\<lambda>t. PyInt 0)" example_snippets "''zeros''"
      example_arenadict example_benchdict False False "1 / 4" 3 "scaling_timer (1 / 1000)"
      "Some (\<lambda>t. PyNone)" fresh_run]
    by simp
  also have "\<dots> = runbenchmarks example_snippets ''zeros'' example_arenadict example_benchdict
     False False (1 / 4) 3 (scaling_timer (1 / 1000)) None None fresh_run"
    using runbenchmarks_only_False [of None example_snippets "''zeros''"
      example_arenadict example_benchdict False False "1 / 4" 3 "scaling_timer (1 / 1000)"
      "Some (\<lambda>t. PyNone)" fresh_run]
    by simp
  finally show ?thesis .
qed

subsection \<open>Theorems about \<^verbatim>\<open>_build_table\<close>\<close>

lemma set_AList_update: "set (AList.update k v al) \<subseteq> insert (k, v) (set al)"
  by (induction al) auto

lemma set_dict_of_pairs_aux:
  "set (foldl (\<lambda>d (k, v). AList.update k v d) acc kvs) \<subseteq> set acc \<union> set kvs"
proof (induction kvs arbitrary: acc)
  case Nil
  show ?case by simp
next
  case (Cons kv kvs)
  obtain k v where kv: "kv = (k, v)" by (cases kv)
  from Cons.IH [of "AList.update k v acc"] set_AList_update [of k v acc] kv
  show ?case by auto
qed

lemma set_dict_of_pairs: "set (dict_of_pairs kvs) \<subseteq> set kvs"
  using set_dict_of_pairs_aux [of "[]" kvs] by (simp add: dict_of_pairs_def)

lemma getitem_ranks:
  assumes "getitem (dict_of_pairs (zip sv [1 ..< length sv + 1])) s = Inr r"
  shows "\<exists>i<length sv. sv ! i = s \<and> r = i + 1"
proof -
  from assms have "(s, r) \<in> set (dict_of_pairs (zip sv [1 ..< length sv + 1]))"
    by (auto simp: getitem_def split: option.splits dest: map_of_SomeD)
  with set_dict_of_pairs have "(s, r) \<in> set (zip sv [1 ..< length sv + 1])"
    by blast
  then obtain i where i: "sv ! i = s" "[1 ..< length sv + 1] ! i = r" "i < length sv"
    by (auto simp: in_set_zip)
  have "[1 ..< length sv + 1] ! i = 1 + i"
    using i(3) by (intro nth_upt) simp
  with i(2) have "r = i + 1" by simp
  with i show ?thesis by auto
qed

lemma ranks_mono:
  assumes "sorted sv"
    and "getitem (dict_of_pairs (zip sv [1 ..< length sv + 1])) s = Inr r"
    and "getitem (dict_of_pairs (zip sv [1 ..< length sv + 1])) s' = Inr r'"
    and "s \<le> s'"
  shows "r \<le> r'"
proof (cases "s = s'")
  case True
  with assms(2,3) show ?thesis by simp
next
  case False
  with assms(4) have less: "s < s'" by simp
  from getitem_ranks [OF assms(2)] obtain i where i: "i < length sv" "sv ! i = s" "r = i + 1"
    by blast
  from getitem_ranks [OF assms(3)] obtain j where j: "j < length sv" "sv ! j = s'" "r' = j + 1"
    by blast
  have "i \<le> j"
  proof (rule ccontr)
    assume "\<not> i \<le> j"
    then have "j \<le> i" by simp
    from sorted_nth_mono [OF assms(1) this i(1)] i j less show False by simp
  qed
  with i j show ?thesis by simp
qed

lemma those_seconds_Some:
  assumes "those_seconds vals = Some secs"
  shows "secs = map (\<lambda>v. the (datum_seconds v)) vals \<and> (\<forall>v\<in>set vals. datum_seconds v \<noteq> None)"
  using assms
  by (induction vals arbitrary: secs) (auto split: option.splits)

lemma update_data_Inr:
  assumes "update_data f vals = Inr ds"
  shows "list_all2 (\<lambda>v d. f v = Inr d) vals ds"
  using assms
  by (induction vals arbitrary: ds) (auto split: sum.splits)

lemma update_datum_Inr:
  assumes "update_datum fmt minval ranks scale units v = Inr d"
  shows "\<exists>s. datum_seconds v = Some s \<and> datum_seconds d = Some s
           \<and> getitem ranks s = Inr (datum_rank d)
           \<and> minval \<noteq> 0
           \<and> datum_isbest d = (s = minval)
           \<and> datum_reltime d = s / minval
           \<and> datum_time d = s * scale \<and> datum_scale d = scale \<and> datum_units d = units"
  using assms
  by (auto simp: update_datum_def Let_def datum.defs table_datum.defs
      split: option.splits sum.splits if_splits)


lemma finish_row_Inr:
  assumes "finish_row fmt vals = Inr ds"
  shows "\<exists>secs minval rest scale units.
      those_seconds vals = Some secs \<and> sort secs = minval # rest
      \<and> list_all2 (\<lambda>v d. update_datum fmt minval
            (dict_of_pairs (zip (minval # rest) [1 ..< length (minval # rest) + 1]))
            scale units v = Inr d) vals ds"
proof -
  from assms obtain secs where secs: "those_seconds vals = Some secs"
    by (auto simp: finish_row_def split: option.splits)
  from assms secs obtain minval rest where srt: "sort secs = minval # rest"
    by (auto simp: finish_row_def split: list.splits)
  obtain scale units0 where bu: "best_units (last (minval # rest)) = (scale, units0)"
    by (cases "best_units (last (minval # rest))")
  from assms secs srt bu have "update_data (update_datum fmt minval
        (dict_of_pairs (zip (minval # rest) [1 ..< length (minval # rest) + 1]))
        scale (units0 @ ''s'')) vals = Inr ds"
    by (simp add: finish_row_def Let_def)
  from update_data_Inr [OF this] secs srt show ?thesis by blast
qed

lemma finish_row_cells:
  assumes "finish_row fmt vals = Inr ds"
    and "d \<in> set ds"
    and "\<forall>v\<in>set vals. \<forall>s. datum_seconds v = Some s \<longrightarrow> 0 \<le> s"
  shows "1 \<le> datum_reltime d
    \<and> (datum_isbest d \<longrightarrow> datum_reltime d = 1 \<and> (\<forall>d'\<in>set ds. datum_rank d \<le> datum_rank d'))"
proof -
  from finish_row_Inr [OF assms(1)] obtain secs minval rest scale units where
    secs: "those_seconds vals = Some secs" and srt: "sort secs = minval # rest" and
    all: "list_all2 (\<lambda>v d. update_datum fmt minval
            (dict_of_pairs (zip (minval # rest) [1 ..< length (minval # rest) + 1]))
            scale units v = Inr d) vals ds"
    by blast
  let ?sv = "minval # rest"
  let ?ranks = "dict_of_pairs (zip ?sv [1 ..< length ?sv + 1])"
  have sorted: "sorted ?sv"
    using srt by (metis sorted_sort)
  have setsv: "set ?sv = set secs"
    using srt by (metis set_sort)
  have secs_eq: "secs = map (\<lambda>v. the (datum_seconds v)) vals"
    using those_seconds_Some [OF secs] by simp
  have cell: "\<exists>s. datum_seconds x = Some s \<and> s \<in> set secs \<and> 0 \<le> s
      \<and> getitem ?ranks s = Inr (datum_rank x) \<and> minval \<noteq> 0
      \<and> datum_isbest x = (s = minval) \<and> datum_reltime x = s / minval"
    if "x \<in> set ds" for x
  proof -
    from that obtain i where i: "i < length ds" "ds ! i = x"
      by (auto simp: in_set_conv_nth)
    from all i have len: "i < length vals" and
      upd: "update_datum fmt minval ?ranks scale units (vals ! i) = Inr x"
      by (auto simp: list_all2_conv_all_nth)
    from update_datum_Inr [OF upd] obtain s where
      s: "datum_seconds (vals ! i) = Some s" "datum_seconds x = Some s"
         "getitem ?ranks s = Inr (datum_rank x)" "minval \<noteq> 0"
         "datum_isbest x = (s = minval)" "datum_reltime x = s / minval"
      by blast
    have "s \<in> set secs"
      using s(1) len secs_eq by (force simp: in_set_conv_nth)
    moreover have "0 \<le> s"
      using assms(3) s(1) len by (meson nth_mem)
    ultimately show ?thesis using s by blast
  qed
  have least: "minval \<le> s" if "s \<in> set secs" for s
    using that sorted setsv by auto
  have "minval \<in> set secs" using setsv by auto
  then obtain v where v: "v \<in> set vals" "the (datum_seconds v) = minval"
    using secs_eq by auto
  with those_seconds_Some [OF secs] have "datum_seconds v = Some minval" by auto
  with assms(3) v(1) have nonneg: "0 \<le> minval" by blast
  from cell [OF assms(2)] obtain s where
    s: "datum_seconds d = Some s" "s \<in> set secs" "getitem ?ranks s = Inr (datum_rank d)"
       "minval \<noteq> 0" "datum_isbest d = (s = minval)" "datum_reltime d = s / minval"
    by blast
  from nonneg s(4) have pos: "0 < minval" by simp
  have rel: "1 \<le> datum_reltime d"
    using least [OF s(2)] pos s(6) by simp
  have best: "datum_reltime d = 1 \<and> (\<forall>d'\<in>set ds. datum_rank d \<le> datum_rank d')"
    if "datum_isbest d"
  proof
    from that s(5) have eq: "s = minval" by simp
    with s(6) pos show "datum_reltime d = 1" by simp
    show "\<forall>d'\<in>set ds. datum_rank d \<le> datum_rank d'"
    proof
      fix d' assume "d' \<in> set ds"
      from cell [OF this] obtain s' where
        s': "s' \<in> set secs" "getitem ?ranks s' = Inr (datum_rank d')"
        by blast
      from ranks_mono [OF sorted s(3) s'(2)] least [OF s'(1)] eq
      show "datum_rank d \<le> datum_rank d'" by simp
    qed
  qed
  from rel best show ?thesis by blast
qed

lemma finish_row_length:
  assumes "finish_row fmt vals = Inr ds"
  shows "length ds = length vals"
  using finish_row_Inr [OF assms] by (auto dest: list_all2_lengthD)

lemma finish_rows_Inr:
  assumes "finish_rows fmt bybench = Inr rows" and "(benchindex, arenadict') \<in> set rows"
  shows "\<exists>arenadict ds. (benchindex, arenadict) \<in> set bybench
           \<and> finish_row fmt (map snd arenadict) = Inr ds
           \<and> arenadict' = zip (map fst arenadict) ds"
  using assms
proof (induction bybench arbitrary: rows)
  case Nil
  then show ?case by simp
next
  case (Cons entry bybench)
  obtain bi ad where entry: "entry = (bi, ad)" by (cases entry)
  from Cons.prems(1) entry obtain ds rows' where
    ds: "finish_row fmt (map snd ad) = Inr ds" and
    rows': "finish_rows fmt bybench = Inr rows'" and
    rows: "rows = (bi, zip (map fst ad) ds) # rows'"
    by (auto split: sum.splits)
  show ?case
  proof (cases "(benchindex, arenadict') = (bi, zip (map fst ad) ds)")
    case True
    with ds entry show ?thesis by auto
  next
    case False
    with Cons.prems(2) rows have "(benchindex, arenadict') \<in> set rows'" by auto
    from Cons.IH [OF rows' this] show ?thesis by auto
  qed
qed

lemma bybench_data_add: "bybench_data (add_datum bybench d) \<subseteq> insert d (bybench_data bybench)"
proof
  fix x assume "x \<in> bybench_data (add_datum bybench d)"
  then obtain bi ad ai where
    in_bb: "(bi, ad) \<in> set (add_datum bybench d)" and in_ad: "(ai, x) \<in> set ad"
    by (auto simp: bybench_data_def)
  let ?old = "case map_of bybench (datum_benchindex d) of None \<Rightarrow> [] | Some ad \<Rightarrow> ad"
  from in_bb set_AList_update [of "datum_benchindex d" "AList.update (datum_arenaindex d) d ?old" bybench]
  have "(bi, ad) = (datum_benchindex d, AList.update (datum_arenaindex d) d ?old)
      \<or> (bi, ad) \<in> set bybench"
    by (auto simp: add_datum_def Let_def)
  then show "x \<in> insert d (bybench_data bybench)"
  proof
    assume "(bi, ad) = (datum_benchindex d, AList.update (datum_arenaindex d) d ?old)"
    with in_ad set_AList_update [of "datum_arenaindex d" d ?old]
    have "x = d \<or> (ai, x) \<in> set ?old" by auto
    then show ?thesis
    proof
      assume "x = d" then show ?thesis by simp
    next
      assume old: "(ai, x) \<in> set ?old"
      then obtain ad0 where "map_of bybench (datum_benchindex d) = Some ad0" "(ai, x) \<in> set ad0"
        by (cases "map_of bybench (datum_benchindex d)") auto
      then show ?thesis
        by (auto simp: bybench_data_def dest: map_of_SomeD)
    qed
  next
    assume "(bi, ad) \<in> set bybench"
    with in_ad show ?thesis by (auto simp: bybench_data_def)
  qed
qed

lemma bybench_data_foldl:
  "bybench_data (foldl add_datum acc data) \<subseteq> bybench_data acc \<union> set data"
proof (induction data arbitrary: acc)
  case Nil
  show ?case by simp
next
  case (Cons d data)
  from Cons.IH [of "add_datum acc d"] bybench_data_add [of acc d] show ?case by auto
qed

lemma build_table_rows:
  assumes "build_table fmt arenaprefixes benchprefixes trials = Inr table"
    and "row \<in> set table"
  shows "\<exists>vals ds. finish_row fmt vals = Inr ds \<and> set row = set ds
           \<and> set vals \<subseteq> trial_datum arenaprefixes benchprefixes ` set trials"
proof -
  let ?data = "map (trial_datum arenaprefixes benchprefixes) trials"
  let ?bybench = "foldl add_datum [] ?data"
  from assms(1) obtain rows where
    rows: "finish_rows fmt ?bybench = Inr rows" and
    table: "table = map (\<lambda>(benchindex, arenadict). map snd (sort_key fst arenadict))
        (sort_key fst rows)"
    by (auto simp: build_table_def Let_def split: sum.splits)
  from assms(2) table obtain bi ad' where
    in_rows: "(bi, ad') \<in> set rows" and row: "row = map snd (sort_key fst ad')"
    by auto
  from finish_rows_Inr [OF rows in_rows] obtain ad ds where
    ad: "(bi, ad) \<in> set ?bybench" and
    ds: "finish_row fmt (map snd ad) = Inr ds" and
    ad': "ad' = zip (map fst ad) ds"
    by blast
  have "length ds = length ad"
    using finish_row_length [OF ds] by simp
  then have "map snd ad' = ds"
    using ad' by simp
  then have "set row = set ds"
    using row by (metis set_map set_sort)
  moreover have "set (map snd ad) \<subseteq> trial_datum arenaprefixes benchprefixes ` set trials"
  proof
    fix x assume "x \<in> set (map snd ad)"
    then obtain ai where "(ai, x) \<in> set ad" by auto
    with ad have "x \<in> bybench_data ?bybench"
      by (auto simp: bybench_data_def)
    moreover have "bybench_data [] = {}"
      by (simp add: bybench_data_def)
    ultimately have "x \<in> set ?data"
      using bybench_data_foldl [of "[]" ?data] by blast
    then show "x \<in> trial_datum arenaprefixes benchprefixes ` set trials"
      by simp
  qed
  ultimately show ?thesis using ds by blast
qed

lemma three_cells_table:
  "\<exists>d0 d1 d2. build_table fmt None None
      [measured_trial 0 0 ''zeros_imul'' (1 / 1000), measured_trial 0 1 ''zeros_mul'' (2 / 1000),
       measured_trial 0 2 ''zeros_slow'' (3 / 1000)]
      = Inr [[d0, d1, d2]]
    \<and> datum_isbest d0 \<and> datum_rank d0 = 1 \<and> datum_rank d1 = 2 \<and> datum_rank d2 = 3"
  by (simp add: build_table_def trial_datum_def measured_trial_def add_datum_def finish_row_def
      update_datum_def dict_of_pairs_def getitem_def best_units_def strip_prefix'_def
      datum.defs table_datum.defs Let_def)

text \<open>
  Claim C2, at a row of two cells that share the lowest time: \<^verbatim>\<open>_build_table\<close> marks
  both as best and gives rank 2 to both, not rank 1. The dict \<^verbatim>\<open>ranks\<close> keeps for a
  time the last of its positions in the sorted row.
\<close>

theorem build_table_tied_best_rank:
  "\<exists>d0 d1. build_table fmt None None
      [measured_trial 0 0 ''zeros_imul'' (1 / 1000), measured_trial 0 1 ''zeros_mul'' (1 / 1000)]
      = Inr [[d0, d1]]
    \<and> datum_isbest d0 \<and> datum_isbest d1 \<and> datum_rank d0 = 2 \<and> datum_rank d1 = 2"
  by (simp add: build_table_def trial_datum_def measured_trial_def add_datum_def finish_row_def
      update_datum_def dict_of_pairs_def getitem_def best_units_def strip_prefix'_def
      datum.defs table_datum.defs Let_def)

text \<open>
  Claim C3, as stated, at a row with negative times: for two cells of \<open>-0.002\<close> and
  \<open>-0.001\<close> seconds the row minimum is \<open>-0.002\<close>, and the second cell has
  \<open>reltime = 0.5\<close>, below 1.
\<close>

theorem build_table_negative_reltime:
  "map_sum id (map (map datum_reltime))
     (build_table no_format None None
        [measured_trial 0 0 ''zeros_imul'' (- 2 / 1000),
         measured_trial 0 1 ''zeros_mul'' (- 1 / 1000)]) = Inr [[1, 1 / 2]]
   \<and> \<not> 1 \<le> (1 / 2 :: real)"
  by (simp add: build_table_def trial_datum_def measured_trial_def add_datum_def finish_row_def
      update_datum_def dict_of_pairs_def getitem_def best_units_def strip_prefix'_def
      datum.defs table_datum.defs Let_def)

text \<open>
  Claim C3, amended: in every table that \<^verbatim>\<open>_build_table\<close> returns for trials whose
  times are not negative, every cell of every row has \<open>reltime \<ge> 1\<close>, and a cell with
  \<^verbatim>\<open>isbest\<close> true has \<open>reltime\<close> exactly 1 and a rank that no cell of its row is
  below. (A row whose smallest time is zero makes \<^verbatim>\<open>_build_table\<close> raise
  \<^verbatim>\<open>ZeroDivisionError\<close>: no table is returned.)
\<close>

theorem build_table_best_cell:
  assumes "build_table fmt arenaprefixes benchprefixes trials = Inr table"
    and "\<forall>t\<in>set trials. \<forall>s. trial_mintime t = Some s \<longrightarrow> 0 \<le> s"
    and "row \<in> set table" and "d \<in> set row"
  shows "1 \<le> datum_reltime d
    \<and> (datum_isbest d \<longrightarrow> datum_reltime d = 1 \<and> (\<forall>d'\<in>set row. datum_rank d \<le> datum_rank d'))"
proof -
  from build_table_rows [OF assms(1,3)] obtain vals ds where
    ds: "finish_row fmt vals = Inr ds" and row: "set row = set ds" and
    vals: "set vals \<subseteq> trial_datum arenaprefixes benchprefixes ` set trials"
    by blast
  have nonneg: "\<forall>v\<in>set vals. \<forall>s. datum_seconds v = Some s \<longrightarrow> 0 \<le> s"
  proof (intro ballI allI impI)
    fix v s assume "v \<in> set vals" "datum_seconds v = Some s"
    with vals obtain t where "t \<in> set trials" "trial_mintime t = Some s"
      by (auto simp: trial_datum_def)
    with assms(2) show "0 \<le> s" by blast
  qed
  from assms(4) row have "d \<in> set ds" by simp
  from finish_row_cells [OF ds this nonneg] row show ?thesis by simp
qed

theorem build_table_best_cell_witness:
  "\<exists>table row d. build_table (\<lambda>x. []) None None
      [measured_trial 0 0 ''zeros_imul'' (1 / 1000), measured_trial 0 1 ''zeros_mul'' (2 / 1000),
       measured_trial 0 2 ''zeros_slow'' (3 / 1000)] = Inr table
    \<and> row \<in> set table \<and> d \<in> set row \<and> datum_isbest d
    \<and> datum_reltime d = 1 \<and> 1 \<le> datum_reltime d"
proof -
  let ?trials = "[measured_trial 0 0 ''zeros_imul'' (1 / 1000),
    measured_trial 0 1 ''zeros_mul'' (2 / 1000), measured_trial 0 2 ''zeros_slow'' (3 / 1000)]"
  obtain d0 d1 d2 where
    table: "build_table (\<lambda>x. []) None None ?trials = Inr [[d0, d1, d2]]" and
    best: "datum_isbest d0"
    using three_cells_table [of "\<lambda>x. []"] by blast
  have nonneg: "\<forall>t\<in>set ?trials. \<forall>s. trial_mintime t = Some s \<longrightarrow> 0 \<le> s"
    by (simp add: measured_trial_def)
  have row: "[d0, d1, d2] \<in> set [[d0, d1, d2]]" and d: "d0 \<in> set [d0, d1, d2]"
    by simp_all
  from build_table_best_cell [OF table nonneg row d] best
  have "datum_reltime d0 = 1" "1 \<le> datum_reltime d0"
    by simp_all
  with table best row d show ?thesis by blast
qed

subsection \<open>Theorems about \<^verbatim>\<open>to_gfm\<close>\<close>

lemma gfm_rows_Inr:
  assumes "list_all (\<lambda>row. row \<noteq> []) table"
  shows "\<exists>crows. gfm_rows relative rank table = Inr crows
           \<and> list_all2 (\<lambda>row crow. length crow = length row + 1) table crows"
  using assms
proof (induction table)
  case Nil
  show ?case by simp
next
  case (Cons row table)
  from Cons.prems obtain datum rest where row: "row = datum # rest"
    by (cases row) auto
  from Cons.IH Cons.prems obtain crows where
    "gfm_rows relative rank table = Inr crows"
    "list_all2 (\<lambda>row crow. length crow = length row + 1) table crows"
    by auto
  with row show ?case by (simp add: Let_def)
qed

lemma gfm_rows_error:
  "gfm_rows relative rank table = Inl e \<Longrightarrow> e = IndexError"
  by (induction table) (auto simp: Let_def split: list.splits sum.splits)

lemma widths_row_Inr:
  assumes "i + length svals \<le> length maxwidths"
  shows "\<exists>maxwidths'. widths_row maxwidths i svals = Inr maxwidths'
           \<and> length maxwidths' = length maxwidths"
  using assms
proof (induction svals arbitrary: maxwidths i)
  case Nil
  show ?case by simp
next
  case (Cons sval svals)
  from Cons.prems have i: "i < length maxwidths" by simp
  from Cons.IH [of "i + 1" "maxwidths[i := max (maxwidths ! i) (length sval)]"] Cons.prems
  obtain maxwidths' where
    "widths_row (maxwidths[i := max (maxwidths ! i) (length sval)]) (i + 1) svals = Inr maxwidths'"
    "length maxwidths' = length maxwidths"
    by auto
  with i show ?case by simp
qed

lemma widths_row_error:
  "widths_row maxwidths i svals = Inl e \<Longrightarrow> e = IndexError"
  by (induction svals arbitrary: maxwidths i) (auto split: if_splits)

lemma widths_data_Inr:
  assumes "list_all (\<lambda>row. length row \<le> length maxwidths) rows"
  shows "\<exists>maxwidths'. widths_data maxwidths rows = Inr maxwidths'
           \<and> length maxwidths' = length maxwidths"
  using assms
proof (induction rows arbitrary: maxwidths)
  case Nil
  show ?case by simp
next
  case (Cons row rows)
  from Cons.prems have "0 + length row \<le> length maxwidths" by simp
  from widths_row_Inr [OF this] obtain mw1 where
    mw1: "widths_row maxwidths 0 row = Inr mw1" "length mw1 = length maxwidths"
    by blast
  from Cons.prems mw1(2) have "list_all (\<lambda>row. length row \<le> length mw1) rows" by simp
  from Cons.IH [OF this] mw1 show ?case by simp
qed

lemma widths_data_error:
  "widths_data maxwidths rows = Inl e \<Longrightarrow> e = IndexError"
  by (induction rows arbitrary: maxwidths) (auto split: sum.splits dest: widths_row_error)

lemma to_gfm_error:
  assumes "to_gfm linesep table relative rank = Inl e" and "\<not> (relative \<and> rank)"
  shows "e = IndexError"
proof (cases table)
  case Nil
  with assms show ?thesis by (simp add: to_gfm_def)
next
  case (Cons row0 rest)
  let ?column_names = "(''__Bench__ '' @ [char_of (92 :: nat)] @ '' __Func__ '')
      # map (\<lambda>datum. '' __'' @ datum_arenashort datum @ ''__ '') row0"
  show ?thesis
  proof (cases "gfm_rows relative rank table")
    case (Inl e')
    with assms Cons have "e = e'" by (simp add: to_gfm_def Let_def)
    with gfm_rows_error [OF Inl] show ?thesis by simp
  next
    case crows: (Inr crows)
    show ?thesis
    proof (cases "widths_data (replicate (length ?column_names) 0) (?column_names # crows)")
      case (Inl e')
      with assms Cons crows have "e = e'" by (simp add: to_gfm_def Let_def)
      with widths_data_error [OF Inl] show ?thesis by simp
    next
      case (Inr maxwidths)
      with assms Cons crows show ?thesis
        by (cases maxwidths) (simp_all add: to_gfm_def Let_def)
    qed
  qed
qed

lemma to_gfm_returns:
  assumes "well_formed_table table" and "\<not> (relative \<and> rank)"
  shows "\<exists>gfm. to_gfm linesep table relative rank = Inr gfm"
proof -
  from assms(1) obtain row0 rest where table: "table = row0 # rest"
    by (cases table) (auto simp: well_formed_table_def)
  from assms(1) table have nonempty: "list_all (\<lambda>row. row \<noteq> []) table"
    and short: "list_all (\<lambda>row. length row \<le> length row0) table"
    by (auto simp: well_formed_table_def list_all_iff)
  let ?column_names = "(''__Bench__ '' @ [char_of (92 :: nat)] @ '' __Func__ '')
      # map (\<lambda>datum. '' __'' @ datum_arenashort datum @ ''__ '') row0"
  from gfm_rows_Inr [OF nonempty] obtain crows where
    crows: "gfm_rows relative rank table = Inr crows" and
    lens: "list_all2 (\<lambda>row crow. length crow = length row + 1) table crows"
    by blast
  have "list_all (\<lambda>crow. length crow \<le> length row0 + 1) crows"
  proof -
    have "length crow \<le> length row0 + 1" if "crow \<in> set crows" for crow
    proof -
      from that obtain i where i: "i < length crows" "crows ! i = crow"
        by (auto simp: in_set_conv_nth)
      with lens have "i < length table" "length crow = length (table ! i) + 1"
        by (auto simp: list_all2_conv_all_nth)
      moreover from this(1) short have "length (table ! i) \<le> length row0"
        by (auto simp: list_all_length)
      ultimately show ?thesis by simp
    qed
    then show ?thesis by (simp add: list_all_iff)
  qed
  then have "list_all (\<lambda>row. length row \<le> length (replicate (length ?column_names) (0 :: nat)))
      (?column_names # crows)"
    by (simp add: list_all_iff)
  from widths_data_Inr [OF this] obtain maxwidths where
    mw: "widths_data (replicate (length ?column_names) 0) (?column_names # crows) = Inr maxwidths"
    and len: "length maxwidths = length ?column_names"
    by auto
  from len obtain w ws where "maxwidths = w # ws"
    by (cases maxwidths) auto
  with assms(2) table crows mw show ?thesis
    by (simp add: to_gfm_def Let_def)
qed

text \<open>
  Claim C8: \<^verbatim>\<open>to_gfm\<close> raises \<^verbatim>\<open>ValueError\<close> when both the relative and the rank
  view are requested, for every table and before anything else is done; it raises
  \<^verbatim>\<open>ValueError\<close> in no other case; and for a table that has a row, no empty row and
  no row longer than its first, a request for at most one of the two views returns a
  rendered table.
\<close>

theorem to_gfm_relative_and_rank:
  "to_gfm linesep table True True = Inl ValueError
   \<and> (to_gfm linesep table relative rank = Inl ValueError \<longleftrightarrow> relative \<and> rank)
   \<and> (well_formed_table table \<and> \<not> (relative \<and> rank) \<longrightarrow>
        (\<exists>gfm. to_gfm linesep table relative rank = Inr gfm))"
proof -
  have both: "to_gfm linesep table True True = Inl ValueError"
    by (simp add: to_gfm_def)
  have only: "to_gfm linesep table relative rank = Inl ValueError \<longleftrightarrow> relative \<and> rank"
  proof
    assume raised: "to_gfm linesep table relative rank = Inl ValueError"
    show "relative \<and> rank"
    proof (rule ccontr)
      assume "\<not> (relative \<and> rank)"
      from to_gfm_error [OF raised this] show False by simp
    qed
  next
    assume "relative \<and> rank"
    then show "to_gfm linesep table relative rank = Inl ValueError"
      by (simp add: to_gfm_def)
  qed
  have rendered: "well_formed_table table \<and> \<not> (relative \<and> rank) \<longrightarrow>
      (\<exists>gfm. to_gfm linesep table relative rank = Inr gfm)"
    using to_gfm_returns by blast
  from both only rendered show ?thesis by blast
qed

theorem to_gfm_relative_and_rank_witness:
  "\<exists>table gfm. build_table (\<lambda>x. []) None None
      [measured_trial 0 0 ''zeros_imul'' (1 / 1000), measured_trial 0 1 ''zeros_mul'' (2 / 1000),
       measured_trial 0 2 ''zeros_slow'' (3 / 1000)] = Inr table
    \<and> well_formed_table table
    \<and> to_gfm [char_of (10 :: nat)] table False True = Inr gfm
    \<and> to_gfm [char_of (10 :: nat)] table True True = Inl ValueError"
proof -
  obtain d0 d1 d2 where
    table: "build_table (\<lambda>x. []) None None
      [measured_trial 0 0 ''zeros_imul'' (1 / 1000), measured_trial 0 1 ''zeros_mul'' (2 / 1000),
       measured_trial 0 2 ''zeros_slow'' (3 / 1000)] = Inr [[d0, d1, d2]]"
    using three_cells_table [of "\<lambda>x. []"] by blast
  have wf: "well_formed_table [[d0, d1, d2]]"
    by (simp add: well_formed_table_def)
  from to_gfm_relative_and_rank [of "[char_of (10 :: nat)]" "[[d0, d1, d2]]" False True] wf
  obtain gfm where
    "to_gfm [char_of (10 :: nat)] [[d0, d1, d2]] False True = Inr gfm"
    "to_gfm [char_of (10 :: nat)] [[d0, d1, d2]] True True = Inl ValueError"
    by auto
  with table wf show ?thesis by blast
qed

end
